theory Spec2Isabelle
  imports Complex_Main "HOL-Library.Multiset"
begin

section \<open>Ownership configuration and the team-to-owner map\<close>

text \<open>
  The pool configuration is the JSON document fetched from \<open>CONFIG_URL\<close>. A field that is
  absent or \<open>null\<close> is \<open>None\<close>. \<open>owners\<close> is a JavaScript object; it is kept as the list
  of its entries in the order \<open>Object.entries\<close> enumerates them, each an owner name with
  that owner's roster of team (mascot) names.

  Team names and owner names are arbitrary strings.
\<close>

record config =
  season :: "int option"
  timezone :: "string option"
  owners :: "(string \<times> string list) list option"
  unowned :: "string list option"

text \<open>
  \<open>map\<close> is an ordinary object, created by \<open>{}\<close>: besides its own properties it has the
  properties of \<open>Object.prototype\<close>. The object is kept as the partial map of its own
  properties, all of them strings here; the names it inherits are those that
  \<open>Object.prototype\<close> has in V8, the engine the worker runs on.
\<close>

definition objectPrototypeNames :: "string list" where
  "objectPrototypeNames =
     [''constructor'', ''__defineGetter__'', ''__defineSetter__'', ''hasOwnProperty'',
      ''__lookupGetter__'', ''__lookupSetter__'', ''isPrototypeOf'', ''propertyIsEnumerable'',
      ''toString'', ''valueOf'', ''__proto__'', ''toLocaleString'']"

text \<open>
  \<open>obj[k] = v\<close> for a string \<open>v\<close>. Under \<open>__proto__\<close> the assignment runs the setter of
  \<open>Object.prototype\<close>, which ignores a value that is neither an object nor \<open>null\<close>: nothing
  is stored. Every other inherited name is a writable data property, and the assignment
  creates an own property as it does for any other name.
\<close>

definition propertySet :: "(string \<rightharpoonup> string) \<Rightarrow> string \<Rightarrow> string \<Rightarrow> (string \<rightharpoonup> string)" where
  "propertySet obj k v = (if k = ''__proto__'' then obj else obj(k \<mapsto> v))"

text \<open>\<open>k in obj\<close>: an own property or an inherited one.\<close>

definition hasProperty :: "(string \<rightharpoonup> string) \<Rightarrow> string \<Rightarrow> bool" where
  "hasProperty obj k = (obj k \<noteq> None \<or> k \<in> set objectPrototypeNames)"

text \<open>Lines 44-46: \<open>for (const [owner, teams] of Object.entries(...)) for (const t of teams) map[t] = owner\<close>.\<close>

fun assignOwners :: "(string \<rightharpoonup> string) \<Rightarrow> (string \<times> string list) list \<Rightarrow> (string \<rightharpoonup> string)" where
  "assignOwners m [] = m"
| "assignOwners m ((owner, teams) # rest) =
     assignOwners (foldl (\<lambda>acc t. propertySet acc t owner) m teams) rest"

text \<open>Lines 47-49: \<open>for (const t of unowned) if (!(t in map)) map[t] = "Unowned"\<close>.\<close>

fun fillUnowned :: "(string \<rightharpoonup> string) \<Rightarrow> string list \<Rightarrow> (string \<rightharpoonup> string)" where
  "fillUnowned m [] = m"
| "fillUnowned m (t # ts) =
     fillUnowned (if hasProperty m t then m else propertySet m t ''Unowned'') ts"

text \<open>\<open>Object.entries(config.owners || {})\<close> and \<open>config.unowned || []\<close>.\<close>

definition ownerEntries :: "config \<Rightarrow> (string \<times> string list) list" where
  "ownerEntries cfg = (case owners cfg of None \<Rightarrow> [] | Some os \<Rightarrow> os)"

definition unownedList :: "config \<Rightarrow> string list" where
  "unownedList cfg = (case unowned cfg of None \<Rightarrow> [] | Some us \<Rightarrow> us)"

definition buildTeamToOwner :: "config \<Rightarrow> (string \<rightharpoonup> string)" where
  "buildTeamToOwner cfg = fillUnowned (assignOwners Map.empty (ownerEntries cfg)) (unownedList cfg)"

text \<open>The owner entries whose roster lists a team, in configuration order.\<close>

definition listing :: "(string \<times> string list) list \<Rightarrow> string \<Rightarrow> (string \<times> string list) list" where
  "listing os t = filter (\<lambda>p. t \<in> set (snd p)) os"

section \<open>Host functions and JavaScript numbers\<close>

text \<open>
  A JavaScript number is \<open>NaN\<close>, an infinity or a finite value; finite values are kept as
  exact rationals (floating-point rounding is outside the model). \<open>strictEq\<close> is \<open>===\<close> on
  numbers: \<open>NaN\<close> equals nothing, itself included.
\<close>

datatype jsnum = JNaN | JNegInf | JNum rat | JPosInf

definition strictEq :: "jsnum \<Rightarrow> jsnum \<Rightarrow> bool" where
  "strictEq a b = (a \<noteq> JNaN \<and> a = b)"

text \<open>
  The built-in functions the worker calls are parameters of the model: \<open>Number(s)\<close> on a
  string, \<open>Date.parse(s)\<close> (\<open>None\<close> is \<open>NaN\<close>, otherwise the time value in
  milliseconds), and \<open>a.localeCompare(b)\<close>, whose result depends on the host's collation.
\<close>

record host =
  toNumber :: "string \<Rightarrow> jsnum"
  dateParse :: "string \<Rightarrow> int option"
  localeCompare :: "string \<Rightarrow> string \<Rightarrow> int"

text \<open>
  \<open>a || b\<close> on values that are a string or absent: the empty string is falsy, as
  \<open>undefined\<close> and \<open>null\<close> are.
\<close>

definition truthy :: "string option \<Rightarrow> bool" where
  "truthy v = (case v of None \<Rightarrow> False | Some s \<Rightarrow> s \<noteq> [])"

definition jsOr :: "string option \<Rightarrow> string option \<Rightarrow> string option" where
  "jsOr a b = (if truthy a then a else b)"

section \<open>Provider documents\<close>

text \<open>
  The scoreboard documents of the provider, with the fields the worker reads. A field
  that is absent or \<open>null\<close> is \<open>None\<close>; an absent list is the empty list where the worker
  reads it with \<open>|| []\<close>. Fields that are present have the JSON type the provider gives
  them (strings for names, labels and dates). \<open>winner\<close> holds whether the competitor's
  \<open>winner\<close> field is the boolean \<open>true\<close>.
\<close>

record team =
  shortDisplayName :: "string option"
  name :: "string option"
  team_abbreviation :: "string option"

record competitor =
  homeAway :: "string option"
  winner :: bool
  team :: "team option"

record competition =
  date :: "string option"
  competitors :: "competitor list"

record event =
  ev_date :: "string option"
  competitions :: "competition list"

record weekData =
  events :: "event list"

record calEntry =
  label :: "string option"
  startDate :: "string option"
  endDate :: "string option"

text \<open>
  \<open>leagues[0].calendar\<close> has one of two shapes: an array of groups, each with an optional
  \<open>entries\<close> list, or an object with an optional \<open>entries\<close> list.
\<close>

datatype calendarJson =
  CalendarArray "calEntry list option list"
| CalendarObject "calEntry list option"

record scoreboardRoot =
  calendar :: "calendarJson option"
  weekNumber :: "rat option"

datatype error = FetchFailed nat string | TypeError

text \<open>
  What the outside world answers: for each URL either a non-success HTTP status (\<open>Inl\<close>)
  or the parsed JSON document (\<open>Inr\<close>). \<open>getDates\<close> is indexed by the full URL of the
  date-range query.
\<close>

record upstream =
  getConfig :: "string \<Rightarrow> nat + config"
  getScoreboard :: "nat + scoreboardRoot"
  getDates :: "string \<Rightarrow> nat + weekData"

definition ESPN_SCOREBOARD :: string where
  "ESPN_SCOREBOARD = ''https://site.api.espn.com/apis/site/v2/sports/football/nfl/scoreboard''"

text \<open>
  \<open>fetchJson\<close> (lines 36-40): the response \<open>res\<close> of the URL, an exception when the status
  is not successful. Every call is recorded in the list of fetched URLs.
\<close>

definition fetchJson :: "nat + 'a \<Rightarrow> string \<Rightarrow> string list \<Rightarrow> (error + 'a) \<times> string list" where
  "fetchJson res url fetched =
     (case res of Inl st \<Rightarrow> (Inl (FetchFailed st url), fetched @ [url])
      | Inr doc \<Rightarrow> (Inr doc, fetched @ [url]))"

section \<open>Week resolver\<close>

definition isDigits :: "string \<Rightarrow> bool" where
  "isDigits s = (s \<noteq> [] \<and> list_all (\<lambda>c. c \<in> set ''0123456789'') s)"

text \<open>The filter of line 57: \<open>e?.label && String(e.label).match(/^\d+$/) && e?.startDate && e?.endDate\<close>.\<close>

definition regularEntry :: "calEntry \<Rightarrow> bool" where
  "regularEntry e =
     (truthy (label e) \<and> (case label e of None \<Rightarrow> False | Some l \<Rightarrow> isDigits l)
      \<and> truthy (startDate e) \<and> truthy (endDate e))"

text \<open>
  Line 55. When the calendar is an array that is empty or whose first group has no
  \<open>entries\<close>, the second operand \<open>calendar?.entries\<close> is the array's own \<open>entries\<close>
  method, a function, and \<open>calendar.filter\<close> on line 57 raises a TypeError.
\<close>

definition calendarEntries :: "scoreboardRoot \<Rightarrow> error + calEntry list" where
  "calendarEntries sb =
     (case calendar sb of
        None \<Rightarrow> Inr []
      | Some (CalendarArray groups) \<Rightarrow>
          (case groups of
             Some es # _ \<Rightarrow> Inr es
           | _ \<Rightarrow> Inl TypeError)
      | Some (CalendarObject eo) \<Rightarrow>
          (case eo of Some es \<Rightarrow> Inr es | None \<Rightarrow> Inr []))"

record weekEntries =
  regularEntries :: "calEntry list"
  currentWeek :: "rat option"

definition getRegularSeasonWeekEntries ::
    "upstream \<Rightarrow> string list \<Rightarrow> (error + weekEntries) \<times> string list" where
  "getRegularSeasonWeekEntries up fetched =
     (case fetchJson (getScoreboard up) ESPN_SCOREBOARD fetched of
        (Inl e, fetched') \<Rightarrow> (Inl e, fetched')
      | (Inr sb, fetched') \<Rightarrow>
          (case calendarEntries sb of
             Inl e \<Rightarrow> (Inl e, fetched')
           | Inr cal \<Rightarrow>
               (Inr \<lparr> regularEntries = take 18 (filter regularEntry cal),
                      currentWeek = (case weekNumber sb of
                                       None \<Rightarrow> None
                                     | Some n \<Rightarrow> if n = 0 then None else Some n) \<rparr>,
                fetched')))"

section \<open>Week grid builder\<close>

text \<open>Lines 63-66: \<open>team?.shortDisplayName || team?.name || team?.abbreviation || ""\<close>.\<close>

definition normalizeTeamName :: "team option \<Rightarrow> string" where
  "normalizeTeamName tm =
     (case tm of
        None \<Rightarrow> []
      | Some t \<Rightarrow>
          (case jsOr (shortDisplayName t) (jsOr (name t) (team_abbreviation t)) of
             None \<Rightarrow> []
           | Some s \<Rightarrow> s))"

text \<open>
  An owner cell of a grid row is the string read from the team-to-owner map or the value
  the map inherits under the team's name: \<open>Inherited k\<close> is the value of
  \<open>Object.prototype\<close> under the name \<open>k\<close>, a built-in function or, for \<open>__proto__\<close>, the
  prototype object itself. Such a value is truthy and is no string, so it is \<open>===\<close> to no
  string.
\<close>

datatype jsval = Str string | Inherited string

text \<open>
  \<open>teamToOwner[name] || "-"\<close>: an own property wins over an inherited one; a team that is
  neither and an empty owner name both give \<open>"-"\<close>.
\<close>

definition ownerOf :: "(string \<rightharpoonup> string) \<Rightarrow> string \<Rightarrow> jsval" where
  "ownerOf m n =
     (case m n of
        Some ow \<Rightarrow> if ow = [] then Str ''-'' else Str ow
      | None \<Rightarrow> if n \<in> set objectPrototypeNames then Inherited n else Str ''-'')"

record gameRow =
  kickoff_utc :: "string option"
  away :: string
  home :: string
  row_winner :: "string option"
  awayOwner :: jsval
  homeOwner :: jsval
  winningOwner :: jsval

text \<open>
  Lines 83-88: the first competition of the event and its away and home competitors; the
  loop skips the event (\<open>continue\<close>) when one of them is missing.
\<close>

definition matchup :: "event \<Rightarrow> (competition \<times> competitor \<times> competitor) option" where
  "matchup ev =
     (case competitions ev of
        [] \<Rightarrow> None
      | cpt # _ \<Rightarrow>
          (case find (\<lambda>c. homeAway c = Some ''away'') (competitors cpt) of
             None \<Rightarrow> None
           | Some aw \<Rightarrow>
               (case find (\<lambda>c. homeAway c = Some ''home'') (competitors cpt) of
                  None \<Rightarrow> None
                | Some hm \<Rightarrow> Some (cpt, aw, hm))))"

text \<open>Lines 90-97 and 103-111: the row of a matchup.\<close>

definition matchupRow ::
    "(string \<rightharpoonup> string) \<Rightarrow> event \<Rightarrow> competition \<times> competitor \<times> competitor \<Rightarrow> gameRow" where
  "matchupRow teamToOwner ev mu =
     (case mu of (cpt, aw, hm) \<Rightarrow>
        let awayName = normalizeTeamName (team aw);
            homeName = normalizeTeamName (team hm);
            winnerName = (case find (\<lambda>c. winner c) (competitors cpt) of
                            None \<Rightarrow> None
                          | Some w \<Rightarrow> Some (normalizeTeamName (team w)))
        in \<lparr> kickoff_utc = (let k = jsOr (date cpt) (ev_date ev) in if truthy k then k else None),
             away = awayName,
             home = homeName,
             row_winner = winnerName,
             awayOwner = ownerOf teamToOwner awayName,
             homeOwner = ownerOf teamToOwner homeName,
             winningOwner = (case winnerName of
                               None \<Rightarrow> Str ''-''
                             | Some w \<Rightarrow> if w = [] then Str ''-'' else ownerOf teamToOwner w) \<rparr>)"

text \<open>One iteration of the loop of lines 82-112, on the list \<open>games\<close> built so far.\<close>

definition gridStep :: "(string \<rightharpoonup> string) \<Rightarrow> gameRow list \<Rightarrow> event \<Rightarrow> gameRow list" where
  "gridStep teamToOwner games ev =
     (case matchup ev of
        None \<Rightarrow> games
      | Some mu \<Rightarrow>
          let row = matchupRow teamToOwner ev mu;
              bothUnowned = (awayOwner row = Str ''Unowned'' \<and> homeOwner row = Str ''Unowned'')
          in if bothUnowned then games else games @ [row])"

definition weekGames :: "(string \<rightharpoonup> string) \<Rightarrow> event list \<Rightarrow> gameRow list" where
  "weekGames teamToOwner evs = foldl (gridStep teamToOwner) [] evs"

text \<open>
  \<open>Array.prototype.sort\<close> is a built-in. ECMAScript requires it to be stable, so for a
  consistent comparator its result is the one list that is ordered by the comparator and
  keeps equal elements in their former order; insertion from the right computes it. For
  an inconsistent comparator the standard leaves the order to the engine.
\<close>

fun insertSorted :: "('a \<Rightarrow> 'a \<Rightarrow> int) \<Rightarrow> 'a \<Rightarrow> 'a list \<Rightarrow> 'a list" where
  "insertSorted cmp x [] = [x]"
| "insertSorted cmp x (y # ys) =
     (if cmp x y \<le> 0 then x # y # ys else y # insertSorted cmp x ys)"

definition arraySort :: "('a \<Rightarrow> 'a \<Rightarrow> int) \<Rightarrow> 'a list \<Rightarrow> 'a list" where
  "arraySort cmp xs = foldr (insertSorted cmp) xs []"

text \<open>Lines 116-117: \<open>a.kickoff_utc ? Date.parse(a.kickoff_utc) : 0\<close>; \<open>None\<close> is \<open>NaN\<close>.\<close>

definition kickoffMs :: "host \<Rightarrow> gameRow \<Rightarrow> int option" where
  "kickoffMs h a =
     (case kickoff_utc a of
        None \<Rightarrow> Some 0
      | Some s \<Rightarrow> if s = [] then Some 0 else dateParse h s)"

text \<open>
  Line 118: \<open>ta - tb || a.away.localeCompare(b.away) || a.home.localeCompare(b.home)\<close>. The
  difference is falsy when it is zero or \<open>NaN\<close>.
\<close>

definition gamesCompare :: "host \<Rightarrow> gameRow \<Rightarrow> gameRow \<Rightarrow> int" where
  "gamesCompare h a b =
     (let byNames = (if localeCompare h (away a) (away b) \<noteq> 0
                     then localeCompare h (away a) (away b)
                     else localeCompare h (home a) (home b))
      in case (kickoffMs h a, kickoffMs h b) of
           (Some ta, Some tb) \<Rightarrow> if ta - tb \<noteq> 0 then ta - tb else byNames
         | _ \<Rightarrow> byNames)"

record grid =
  week :: jsnum
  grid_currentWeek :: "rat option"
  games :: "gameRow list"
  week_label :: "string option"
  grid_startDate :: "string option"
  grid_endDate :: "string option"

text \<open>Line 70: \<open>Number(weekNumber || currentWeek || 1)\<close>.\<close>

definition requestedWeek :: "host \<Rightarrow> string option \<Rightarrow> rat option \<Rightarrow> jsnum" where
  "requestedWeek h weekParam cw =
     (case weekParam of
        Some s \<Rightarrow> if s \<noteq> [] then toNumber h s
                  else (case cw of Some n \<Rightarrow> JNum n | None \<Rightarrow> JNum 1)
      | None \<Rightarrow> (case cw of Some n \<Rightarrow> JNum n | None \<Rightarrow> JNum 1))"

text \<open>\<open>Number(e.label)\<close>; \<open>Number(undefined)\<close> is \<open>NaN\<close>.\<close>

definition labelNumber :: "host \<Rightarrow> calEntry \<Rightarrow> jsnum" where
  "labelNumber h e = (case label e of None \<Rightarrow> JNaN | Some l \<Rightarrow> toNumber h l)"

text \<open>Lines 75-76: \<open>d.slice(0,10).replaceAll("-","")\<close>; a TypeError when \<open>d\<close> is absent.\<close>

definition compactDate :: "string option \<Rightarrow> error + string" where
  "compactDate d =
     (case d of
        None \<Rightarrow> Inl TypeError
      | Some s \<Rightarrow> Inr (filter (\<lambda>c. c \<noteq> CHR ''-'') (take 10 s)))"

definition datesUrl :: "calEntry \<Rightarrow> error + string" where
  "datesUrl e =
     (case compactDate (startDate e) of
        Inl err \<Rightarrow> Inl err
      | Inr start \<Rightarrow>
          (case compactDate (endDate e) of
             Inl err \<Rightarrow> Inl err
           | Inr end' \<Rightarrow> Inr (ESPN_SCOREBOARD @ ''?dates='' @ start @ ''-'' @ end')))"

definition fetchWeekGrid ::
    "host \<Rightarrow> upstream \<Rightarrow> string option \<Rightarrow> config \<Rightarrow> string list \<Rightarrow> (error + grid) \<times> string list" where
  "fetchWeekGrid h up weekParam cfg fetched =
     (case getRegularSeasonWeekEntries up fetched of
        (Inl e, fetched1) \<Rightarrow> (Inl e, fetched1)
      | (Inr we, fetched1) \<Rightarrow>
          let wk = requestedWeek h weekParam (currentWeek we) in
          (case find (\<lambda>e. strictEq (labelNumber h e) wk) (regularEntries we) of
             None \<Rightarrow>
               (Inr \<lparr> week = wk, grid_currentWeek = currentWeek we, games = [],
                      week_label = None, grid_startDate = None, grid_endDate = None \<rparr>,
                fetched1)
           | Some entry \<Rightarrow>
               (case datesUrl entry of
                  Inl e \<Rightarrow> (Inl e, fetched1)
                | Inr url \<Rightarrow>
                    (case fetchJson (getDates up url) url fetched1 of
                       (Inl e, fetched2) \<Rightarrow> (Inl e, fetched2)
                     | (Inr weekData, fetched2) \<Rightarrow>
                         (Inr \<lparr> week = wk, grid_currentWeek = currentWeek we,
                                games = arraySort (gamesCompare h)
                                          (weekGames (buildTeamToOwner cfg) (events weekData)),
                                week_label = label entry,
                                grid_startDate = startDate entry,
                                grid_endDate = endDate entry \<rparr>,
                          fetched2)))))"

section \<open>Win aggregator\<close>

text \<open>
  \<open>NAME_TO_ABBR\<close> and \<open>winsByAbbr\<close> are kept as the partial maps of their own properties,
  and a win count is a natural number. The names of \<open>objectPrototypeNames\<close> are taken not
  to occur as team codes of the provider, nor as team names where \<open>buildResponse\<close> looks a
  name up in \<open>NAME_TO_ABBR\<close>: on such a name the worker reads an inherited value in place
  of a code or a count.
\<close>

definition NAME_TO_ABBR :: "(string \<times> string) list" where
  "NAME_TO_ABBR =
     [(''49ers'', ''SF''), (''Bears'', ''CHI''), (''Bengals'', ''CIN''), (''Bills'', ''BUF''),
      (''Broncos'', ''DEN''), (''Browns'', ''CLE''), (''Buccaneers'', ''TB''),
      (''Cardinals'', ''ARI''), (''Chargers'', ''LAC''), (''Chiefs'', ''KC''), (''Colts'', ''IND''),
      (''Commanders'', ''WSH''), (''Cowboys'', ''DAL''), (''Dolphins'', ''MIA''),
      (''Eagles'', ''PHI''), (''Falcons'', ''ATL''), (''Giants'', ''NYG''), (''Jaguars'', ''JAX''),
      (''Jets'', ''NYJ''), (''Lions'', ''DET''), (''Packers'', ''GB''),
      (''Panthers'', ''CAR''), (''Patriots'', ''NE''), (''Raiders'', ''LV''), (''Rams'', ''LAR''),
      (''Ravens'', ''BAL''), (''Saints'', ''NO''), (''Seahawks'', ''SEA''),
      (''Steelers'', ''PIT''), (''Texans'', ''HOU''), (''Titans'', ''TEN''), (''Vikings'', ''MIN'')]"

text \<open>Line 133: \<open>Object.fromEntries(Object.values(NAME_TO_ABBR).map(a => [a, 0]))\<close>.\<close>

definition initialWins :: "string \<rightharpoonup> nat" where
  "initialWins = map_of (map (\<lambda>a. (a, 0)) (map snd NAME_TO_ABBR))"

text \<open>
  Lines 145-149, for one competition: the first competitor flagged as winner, and the
  increment \<open>winsByAbbr[abbr] = (winsByAbbr[abbr] || 0) + 1\<close> under the guard \<open>if (abbr)\<close>.
\<close>

definition countWinner :: "(string \<rightharpoonup> nat) \<Rightarrow> competition \<Rightarrow> (string \<rightharpoonup> nat)" where
  "countWinner winsByAbbr cpt =
     (case find (\<lambda>c. winner c) (competitors cpt) of
        None \<Rightarrow> winsByAbbr
      | Some w \<Rightarrow>
          (case team w of
             None \<Rightarrow> winsByAbbr
           | Some t \<Rightarrow>
               (case team_abbreviation t of
                  None \<Rightarrow> winsByAbbr
                | Some a \<Rightarrow>
                    if a = [] then winsByAbbr
                    else winsByAbbr(a \<mapsto> (case winsByAbbr a of None \<Rightarrow> 0 | Some n \<Rightarrow> n) + 1))))"

definition countEvent :: "(string \<rightharpoonup> nat) \<Rightarrow> event \<Rightarrow> (string \<rightharpoonup> nat)" where
  "countEvent winsByAbbr ev = foldl countWinner winsByAbbr (competitions ev)"

definition countWeek :: "(string \<rightharpoonup> nat) \<Rightarrow> weekData \<Rightarrow> (string \<rightharpoonup> nat)" where
  "countWeek winsByAbbr wd = foldl countEvent winsByAbbr (events wd)"

text \<open>The loop of lines 136-152 over the week windows, one fetch per window.\<close>

fun seasonLoop ::
    "upstream \<Rightarrow> (string \<rightharpoonup> nat) \<Rightarrow> calEntry list \<Rightarrow> string list
       \<Rightarrow> (error + (string \<rightharpoonup> nat)) \<times> string list" where
  "seasonLoop up winsByAbbr [] fetched = (Inr winsByAbbr, fetched)"
| "seasonLoop up winsByAbbr (e # es) fetched =
     (case datesUrl e of
        Inl err \<Rightarrow> (Inl err, fetched)
      | Inr url \<Rightarrow>
          (case fetchJson (getDates up url) url fetched of
             (Inl err, fetched') \<Rightarrow> (Inl err, fetched')
           | (Inr wd, fetched') \<Rightarrow> seasonLoop up (countWeek winsByAbbr wd) es fetched'))"

definition computeTeamWinsForSeason ::
    "upstream \<Rightarrow> int \<Rightarrow> string list \<Rightarrow> (error + (string \<rightharpoonup> nat)) \<times> string list" where
  "computeTeamWinsForSeason up seasonYear fetched =
     (case getRegularSeasonWeekEntries up fetched of
        (Inl e, fetched') \<Rightarrow> (Inl e, fetched')
      | (Inr we, fetched') \<Rightarrow> seasonLoop up initialWins (regularEntries we) fetched')"

section \<open>Standings builder\<close>

record teamRow =
  row_team :: string
  abbr :: string
  wins :: nat

record ownerRow =
  owner :: string
  total_wins :: nat
  teams :: "teamRow list"

record standingsCore =
  standings :: "ownerRow list"
  core_unowned :: "teamRow list"

text \<open>Lines 160-163 and 169-172: \<open>NAME_TO_ABBR[t] || t\<close> and \<open>winsByAbbr[abbr] ?? 0\<close>.\<close>

definition teamRowOf :: "(string \<rightharpoonup> nat) \<Rightarrow> string \<Rightarrow> teamRow" where
  "teamRowOf winsByAbbr t =
     (let a = (case map_of NAME_TO_ABBR t of None \<Rightarrow> t | Some c \<Rightarrow> if c = [] then t else c)
      in \<lparr> row_team = t, abbr = a,
           wins = (case winsByAbbr a of None \<Rightarrow> 0 | Some n \<Rightarrow> n) \<rparr>)"

definition ownerRowOf :: "(string \<rightharpoonup> nat) \<Rightarrow> string \<times> string list \<Rightarrow> ownerRow" where
  "ownerRowOf winsByAbbr entry =
     (case entry of (ow, roster) \<Rightarrow>
        let teamRows = map (teamRowOf winsByAbbr) roster
        in \<lparr> owner = ow, total_wins = foldl (\<lambda>a b. a + wins b) 0 teamRows, teams = teamRows \<rparr>)"

text \<open>Line 167: \<open>b.total_wins - a.total_wins || a.owner.localeCompare(b.owner)\<close>.\<close>

definition standingsCompare :: "host \<Rightarrow> ownerRow \<Rightarrow> ownerRow \<Rightarrow> int" where
  "standingsCompare h a b =
     (if int (total_wins b) - int (total_wins a) \<noteq> 0
      then int (total_wins b) - int (total_wins a)
      else localeCompare h (owner a) (owner b))"

text \<open>
  \<open>buildResponse\<close> reads \<open>config.owners\<close> without a default: \<open>Object.entries\<close> of an absent
  value raises a TypeError.
\<close>

definition buildResponse :: "host \<Rightarrow> config \<Rightarrow> (string \<rightharpoonup> nat) \<Rightarrow> error + standingsCore" where
  "buildResponse h cfg winsByAbbr =
     (case owners cfg of
        None \<Rightarrow> Inl TypeError
      | Some os \<Rightarrow>
          Inr \<lparr> standings = arraySort (standingsCompare h) (map (ownerRowOf winsByAbbr) os),
                core_unowned = map (teamRowOf winsByAbbr) (unownedList cfg) \<rparr>)"

section \<open>Request handler and TTL cache\<close>

text \<open>
  A payload stands for the JSON text \<open>JSON.stringify\<close> gives for it: two responses with
  equal payloads carry byte-identical content. (In that text an owner cell holding an
  inherited function is left out, and the prototype object is written \<open>{}\<close>.)
  \<open>JSON.parse\<close> followed by \<open>JSON.stringify\<close> gives the text back, so the store behind
  \<open>POOL_KV\<close> returns what was put under a key.
\<close>

record weekPayload =
  wp_season :: "int option"
  wp_generated_at_ct :: string
  wp_cache_ttl_minutes :: jsnum
  wp_timezone :: string
  wp_grid :: grid

record standingsPayload =
  sp_season :: "int option"
  sp_generated_at_ct :: string
  sp_cache_ttl_minutes :: jsnum
  sp_core :: standingsCore

datatype payload = WeekPayload weekPayload | StandingsPayload standingsPayload

record cacheEntry =
  expires_at_ms :: "rat option"
  payload :: payload

type_synonym kvStore = "string \<rightharpoonup> cacheEntry"

text \<open>The environment bindings; \<open>POOL_KV\<close> is \<open>None\<close> when no store is bound.\<close>

record env =
  CACHE_TTL_MINUTES :: "string option"
  CONFIG_URL :: "string option"
  POOL_KV :: "kvStore option"

record request =
  pathname :: string
  weekParam :: "string option"

text \<open>
  The clock readings of one request: \<open>Date.now()\<close> at the cache check, the string
  \<open>ctString(new Date())\<close> written into a fresh payload, and \<open>Date.now()\<close> at the cache
  store. Times are milliseconds since the epoch.
\<close>

record clock =
  nowAtCheck :: nat
  generatedAt :: string
  nowAtPut :: nat

text \<open>
  A response: the two fixed answers, or a JSON payload together with whether the
  \<open>access-control-allow-origin\<close> header is attached (it is not on a cache hit).
\<close>

datatype response = NotFound | MissingConfigUrl | Served payload bool

definition DEFAULT_TTL_MIN :: rat where
  "DEFAULT_TTL_MIN = 30"

text \<open>Line 184: \<open>Number(env.CACHE_TTL_MINUTES || DEFAULT_TTL_MIN)\<close>.\<close>

definition ttlMinutes :: "host \<Rightarrow> env \<Rightarrow> jsnum" where
  "ttlMinutes h ev =
     (case CACHE_TTL_MINUTES ev of
        None \<Rightarrow> JNum DEFAULT_TTL_MIN
      | Some s \<Rightarrow> if s = [] then JNum DEFAULT_TTL_MIN else toNumber h s)"

text \<open>
  \<open>Date.now() + ttlMin*60*1000\<close>, and the number as \<open>JSON.stringify\<close> and \<open>JSON.parse\<close>
  hand it back: \<open>NaN\<close> and the infinities become \<open>null\<close>.
\<close>

definition expiry :: "nat \<Rightarrow> jsnum \<Rightarrow> jsnum" where
  "expiry now ttlMin =
     (case ttlMin of JNum m \<Rightarrow> JNum (of_nat now + m * 60 * 1000) | other \<Rightarrow> other)"

definition jsonNumber :: "jsnum \<Rightarrow> rat option" where
  "jsonNumber n = (case n of JNum r \<Rightarrow> Some r | _ \<Rightarrow> None)"

text \<open>Lines 199 and 239: \<open>cached && cached.expires_at_ms && Date.now() < cached.expires_at_ms\<close>.\<close>

definition fresh :: "nat \<Rightarrow> cacheEntry option \<Rightarrow> bool" where
  "fresh now cached =
     (case cached of
        None \<Rightarrow> False
      | Some c \<Rightarrow>
          (case expires_at_ms c of
             None \<Rightarrow> False
           | Some x \<Rightarrow> x \<noteq> 0 \<and> of_nat now < x))"

text \<open>Lines 197-204 and 237-244: the payload to serve from the cache, if any.\<close>

definition cacheLookup :: "kvStore option \<Rightarrow> string \<Rightarrow> nat \<Rightarrow> payload option" where
  "cacheLookup kv cacheKey now =
     (case kv of
        None \<Rightarrow> None
      | Some store \<Rightarrow>
          (case store cacheKey of
             None \<Rightarrow> None
           | Some c \<Rightarrow> if fresh now (Some c) then Some (payload c) else None))"

text \<open>Lines 215-220 and 257-262: \<open>POOL_KV.put\<close> of the new entry when a store is bound.\<close>

definition cacheStore :: "kvStore option \<Rightarrow> string \<Rightarrow> nat \<Rightarrow> jsnum \<Rightarrow> payload \<Rightarrow> kvStore option" where
  "cacheStore kv cacheKey now ttlMin p =
     (case kv of
        None \<Rightarrow> None
      | Some store \<Rightarrow>
          Some (store(cacheKey \<mapsto>
                  \<lparr> expires_at_ms = jsonNumber (expiry now ttlMin), payload = p \<rparr>)))"

definition weekCacheKey :: "string option \<Rightarrow> string" where
  "weekCacheKey wp =
     ''week_cache_v1_'' @ (case wp of None \<Rightarrow> ''auto'' | Some s \<Rightarrow> if s = [] then ''auto'' else s)"

definition standingsCacheKey :: string where
  "standingsCacheKey = ''standings_cache_v1''"

text \<open>Lines 193-228: the week endpoint, after the configuration was loaded.\<close>

definition weekEndpoint ::
    "host \<Rightarrow> upstream \<Rightarrow> clock \<Rightarrow> env \<Rightarrow> request \<Rightarrow> config \<Rightarrow> string list
       \<Rightarrow> (error + response) \<times> kvStore option \<times> string list" where
  "weekEndpoint h up clk ev req cfg fetched =
     (let cacheKey = weekCacheKey (weekParam req) in
      case cacheLookup (POOL_KV ev) cacheKey (nowAtCheck clk) of
        Some p \<Rightarrow> (Inr (Served p False), POOL_KV ev, fetched)
      | None \<Rightarrow>
          (case fetchWeekGrid h up (weekParam req) cfg fetched of
             (Inl e, fetched') \<Rightarrow> (Inl e, POOL_KV ev, fetched')
           | (Inr g, fetched') \<Rightarrow>
               let p = WeekPayload
                         \<lparr> wp_season = season cfg,
                           wp_generated_at_ct = generatedAt clk,
                           wp_cache_ttl_minutes = ttlMinutes h ev,
                           wp_timezone = (case timezone cfg of
                                            None \<Rightarrow> ''America/Chicago''
                                          | Some z \<Rightarrow> if z = [] then ''America/Chicago'' else z),
                           wp_grid = g \<rparr>
               in (Inr (Served p True),
                   cacheStore (POOL_KV ev) cacheKey (nowAtPut clk) (ttlMinutes h ev) p,
                   fetched')))"

text \<open>Lines 234-270: the standings endpoint, after the configuration was loaded.\<close>

definition standingsEndpoint ::
    "host \<Rightarrow> upstream \<Rightarrow> clock \<Rightarrow> env \<Rightarrow> config \<Rightarrow> string list
       \<Rightarrow> (error + response) \<times> kvStore option \<times> string list" where
  "standingsEndpoint h up clk ev cfg fetched =
     (case cacheLookup (POOL_KV ev) standingsCacheKey (nowAtCheck clk) of
        Some p \<Rightarrow> (Inr (Served p False), POOL_KV ev, fetched)
      | None \<Rightarrow>
          (case computeTeamWinsForSeason up
                  (case season cfg of None \<Rightarrow> 2025 | Some y \<Rightarrow> if y = 0 then 2025 else y) fetched of
             (Inl e, fetched') \<Rightarrow> (Inl e, POOL_KV ev, fetched')
           | (Inr winsByAbbr, fetched') \<Rightarrow>
               (case buildResponse h cfg winsByAbbr of
                  Inl e \<Rightarrow> (Inl e, POOL_KV ev, fetched')
                | Inr payloadCore \<Rightarrow>
                    let p = StandingsPayload
                              \<lparr> sp_season = season cfg,
                                sp_generated_at_ct = generatedAt clk,
                                sp_cache_ttl_minutes = ttlMinutes h ev,
                                sp_core = payloadCore \<rparr>
                    in (Inr (Served p True),
                        cacheStore (POOL_KV ev) standingsCacheKey (nowAtPut clk) (ttlMinutes h ev) p,
                        fetched'))))"

text \<open>
  The handler (lines 178-271). Its result is the response or the exception, the store
  behind \<open>POOL_KV\<close> after the request, and the list of fetched URLs.
\<close>

definition fetch ::
    "host \<Rightarrow> upstream \<Rightarrow> clock \<Rightarrow> env \<Rightarrow> request \<Rightarrow> string list
       \<Rightarrow> (error + response) \<times> kvStore option \<times> string list" where
  "fetch h up clk ev req fetched =
     (if take 5 (pathname req) \<noteq> ''/api/'' then (Inr NotFound, POOL_KV ev, fetched)
      else
        (case CONFIG_URL ev of
           None \<Rightarrow> (Inr MissingConfigUrl, POOL_KV ev, fetched)
         | Some configUrl \<Rightarrow>
             if configUrl = [] then (Inr MissingConfigUrl, POOL_KV ev, fetched)
             else
               (case fetchJson (getConfig up configUrl) configUrl fetched of
                  (Inl e, fetched') \<Rightarrow> (Inl e, POOL_KV ev, fetched')
                | (Inr cfg, fetched') \<Rightarrow>
                    if pathname req = ''/api/week'' then weekEndpoint h up clk ev req cfg fetched'
                    else if pathname req \<noteq> ''/api/standings'' then (Inr NotFound, POOL_KV ev, fetched')
                    else standingsEndpoint h up clk ev cfg fetched')))"

section \<open>Comparators and orders used in the statements\<close>

text \<open>
  A consistent comparator in the sense of ECMAScript: the sign flips when the arguments
  are swapped, and \<open>cmp a b \<le> 0\<close> is transitive. \<open>localeCompare\<close> of a host is taken to be
  one where a statement says so.
\<close>

definition consistentCompare :: "('a \<Rightarrow> 'a \<Rightarrow> int) \<Rightarrow> bool" where
  "consistentCompare cmp =
     ((\<forall>a b. (cmp a b < 0) = (0 < cmp b a))
      \<and> (\<forall>a b c. cmp a b \<le> 0 \<and> cmp b c \<le> 0 \<longrightarrow> cmp a c \<le> 0))"

text \<open>
  The order of the week grid, as the specification words it: by kickoff timestamp, a
  missing kickoff counting as zero, then by away-team name, then by home-team name. Two
  rows one of which has an unparseable kickoff are not constrained.
\<close>

definition inGridOrder :: "host \<Rightarrow> gameRow \<Rightarrow> gameRow \<Rightarrow> bool" where
  "inGridOrder h a b =
     (case (kickoffMs h a, kickoffMs h b) of
        (Some ta, Some tb) \<Rightarrow>
          ta < tb \<or>
          (ta = tb \<and>
            (localeCompare h (away a) (away b) < 0 \<or>
             (localeCompare h (away a) (away b) = 0 \<and> localeCompare h (home a) (home b) \<le> 0)))
      | _ \<Rightarrow> True)"

text \<open>The order of the standings: more wins first, then by owner name.\<close>

definition standingsOrder :: "host \<Rightarrow> ownerRow \<Rightarrow> ownerRow \<Rightarrow> bool" where
  "standingsOrder h a b =
     (total_wins b < total_wins a \<or>
      (total_wins a = total_wins b \<and> localeCompare h (owner a) (owner b) \<le> 0))"



text \<open>The team names that occur in some owner's roster.\<close>

definition rostered :: "config \<Rightarrow> string set" where
  "rostered cfg = (\<Union>p\<in>set (ownerEntries cfg). set (snd p))"

text \<open>A label that denotes a positive integer: decimal digits with a value above zero.\<close>

definition decimalValue :: "string \<Rightarrow> nat" where
  "decimalValue s = foldl (\<lambda>n c. 10 * n + (of_char c - 48)) 0 s"

definition positiveIntegerString :: "string \<Rightarrow> bool" where
  "positiveIntegerString s = (isDigits s \<and> 0 < decimalValue s)"

text \<open>The cache key of a request to one of the two endpoints (lines 195 and 234).\<close>

definition requestKey :: "request \<Rightarrow> string" where
  "requestKey req =
     (if pathname req = ''/api/week'' then weekCacheKey (weekParam req) else standingsCacheKey)"

text \<open>
  The code under which a competition's winner is counted: the abbreviation of the first
  competitor flagged as winner, when it is present and not empty.
\<close>

definition winnerCode :: "competition \<Rightarrow> string option" where
  "winnerCode cpt =
     (case find (\<lambda>c. winner c) (competitors cpt) of
        None \<Rightarrow> None
      | Some w \<Rightarrow>
          (case team w of
             None \<Rightarrow> None
           | Some t \<Rightarrow> if truthy (team_abbreviation t) then team_abbreviation t else None))"

text \<open>The count a win table holds for a code, zero when the code is not a key.\<close>

definition winsOf :: "(string \<rightharpoonup> nat) \<Rightarrow> string \<Rightarrow> nat" where
  "winsOf winsByAbbr c = (case winsByAbbr c of None \<Rightarrow> 0 | Some n \<Rightarrow> n)"

text \<open>All competitions of a list of week documents, in the order the loops visit them.\<close>

definition allCompetitions :: "weekData list \<Rightarrow> competition list" where
  "allCompetitions wds = concat (map (\<lambda>wd. concat (map competitions (events wd))) wds)"

text \<open>The entry a request stores after computing the payload \<open>p\<close> (lines 216-219, 258-261).\<close>

definition newEntry :: "host \<Rightarrow> env \<Rightarrow> clock \<Rightarrow> payload \<Rightarrow> cacheEntry" where
  "newEntry h ev clk p =
     \<lparr> expires_at_ms = jsonNumber (expiry (nowAtPut clk) (ttlMinutes h ev)), payload = p \<rparr>"

text \<open>The same environment with no store bound to \<open>POOL_KV\<close>.\<close>

definition uncached :: "env \<Rightarrow> env" where
  "uncached ev = ev \<lparr> POOL_KV := None \<rparr>"

section \<open>A sample host and a sample provider\<close>

text \<open>
  Concrete inputs for the examples. The sample host compares strings by code units,
  reads decimal numerals with \<open>Number\<close>, and its \<open>Date.parse\<close> knows the kickoff times used
  below and answers \<open>NaN\<close> for anything else; on the strings of the examples these are the
  values an engine returns.
\<close>

fun codeUnitCompare :: "string \<Rightarrow> string \<Rightarrow> int" where
  "codeUnitCompare [] [] = 0"
| "codeUnitCompare [] (y # ys) = -1"
| "codeUnitCompare (x # xs) [] = 1"
| "codeUnitCompare (x # xs) (y # ys) =
     (if (of_char x :: nat) < of_char y then -1
      else if (of_char y :: nat) < of_char x then 1
      else codeUnitCompare xs ys)"

definition sampleHost :: host where
  "sampleHost =
     \<lparr> toNumber = (\<lambda>s. if isDigits s then JNum (of_nat (decimalValue s)) else JNaN),
       dateParse = (\<lambda>s. if s = ''2025-09-05T00:20Z'' then Some 1757031600000
                        else if s = ''2025-09-07T17:00Z'' then Some 1757264400000
                        else if s = ''1969-12-31T23:59:59.999Z'' then Some (-1)
                        else None),
       localeCompare = codeUnitCompare \<rparr>"

definition sampleWeek1 :: calEntry where
  "sampleWeek1 =
     \<lparr> label = Some ''1'', startDate = Some ''2025-09-04T07:00Z'', endDate = Some ''2025-09-10T06:59Z'' \<rparr>"

definition sampleWeek2 :: calEntry where
  "sampleWeek2 =
     \<lparr> label = Some ''2'', startDate = Some ''2025-09-11T07:00Z'', endDate = Some ''2025-09-17T06:59Z'' \<rparr>"

definition sampleWeek1Url :: string where
  "sampleWeek1Url = ESPN_SCOREBOARD @ ''?dates=20250904-20250910''"

definition sampleConfigUrl :: string where
  "sampleConfigUrl = ''https://pool.example/pool-config.json''"

text \<open>
  A provider whose calendar is \<open>cal\<close>, whose current week is 1 and whose week-1 window
  holds the events \<open>evs\<close>; every other window is empty. The configuration source serves
  \<open>cfg\<close>.
\<close>

definition sampleUpstream :: "calEntry list \<Rightarrow> config \<Rightarrow> event list \<Rightarrow> upstream" where
  "sampleUpstream cal cfg evs =
     \<lparr> getConfig = (\<lambda>url. if url = sampleConfigUrl then Inr cfg else Inl 404),
       getScoreboard = Inr \<lparr> calendar = Some (CalendarObject (Some cal)), weekNumber = Some 1 \<rparr>,
       getDates = (\<lambda>url. if url = sampleWeek1Url then Inr \<lparr> events = evs \<rparr>
                         else Inr \<lparr> events = [] \<rparr>) \<rparr>"

text \<open>
  A game between two mascots with an optional kickoff; \<open>won\<close> names the side flagged as
  winner, if any. Teams carry the abbreviation of the static table.
\<close>

definition sampleTeam :: "string \<Rightarrow> team option" where
  "sampleTeam n =
     Some \<lparr> shortDisplayName = Some n, name = Some n, team_abbreviation = map_of NAME_TO_ABBR n \<rparr>"

definition sampleGame :: "string option \<Rightarrow> string \<Rightarrow> string \<Rightarrow> string option \<Rightarrow> event" where
  "sampleGame kickoff aw hm won =
     \<lparr> ev_date = kickoff,
       competitions =
         [\<lparr> date = kickoff,
            competitors =
              [\<lparr> homeAway = Some ''home'', winner = (won = Some hm), team = sampleTeam hm \<rparr>,
               \<lparr> homeAway = Some ''away'', winner = (won = Some aw), team = sampleTeam aw \<rparr>] \<rparr>] \<rparr>"

definition sampleConfig :: config where
  "sampleConfig =
     \<lparr> season = Some 2025, timezone = None,
       owners = Some [(''Alice'', [''Ravens'', ''Chiefs'']), (''Bob'', [''Bills'', ''Cowboys''])],
       unowned = Some [''Bears'', ''Lions''] \<rparr>"

definition sampleWins :: "string \<rightharpoonup> nat" where
  "sampleWins = initialWins(''BAL'' \<mapsto> 1, ''BUF'' \<mapsto> 3, ''DAL'' \<mapsto> 2)"

text \<open>
  Week 1 of the sample: a game between two teams of the unowned list, two games with an
  owned team, a game between two teams the configuration does not mention, and a game
  without a kickoff time.
\<close>

definition sampleEvents :: "event list" where
  "sampleEvents =
     [sampleGame (Some ''2025-09-07T17:00Z'') ''Bears'' ''Lions'' None,
      sampleGame (Some ''2025-09-07T17:00Z'') ''Ravens'' ''Bills'' (Some ''Bills''),
      sampleGame (Some ''2025-09-07T17:00Z'') ''Jets'' ''Giants'' None,
      sampleGame (Some ''2025-09-05T00:20Z'') ''Cowboys'' ''Eagles'' (Some ''Eagles''),
      sampleGame None ''Bears'' ''Chiefs'' None]"

text \<open>Week 1 with a kickoff string that is not a date between two that are.\<close>

definition undatedEvents :: "event list" where
  "undatedEvents =
     [sampleGame (Some ''2025-09-07T17:00Z'') ''Bears'' ''Ravens'' None,
      sampleGame (Some ''TBD'') ''Chiefs'' ''Bills'' None,
      sampleGame (Some ''2025-09-05T00:20Z'') ''Cowboys'' ''Eagles'' None]"

text \<open>Week 1 with a game without a kickoff and a game that kicked off before 1970.\<close>

definition preEpochEvents :: "event list" where
  "preEpochEvents =
     [sampleGame None ''Bears'' ''Chiefs'' None,
      sampleGame (Some ''1969-12-31T23:59:59.999Z'') ''Ravens'' ''Bills'' None]"

text \<open>A configuration one of whose owners is named \<open>"Unowned"\<close>, with an empty unowned list.\<close>

definition unownedOwnerConfig :: config where
  "unownedOwnerConfig =
     \<lparr> season = Some 2025, timezone = None,
       owners = Some [(''Unowned'', [''Bears'', ''Lions'']), (''Alice'', [''Ravens''])],
       unowned = Some [] \<rparr>"

text \<open>
  Calendar entries that are not regular-season windows: a named preseason entry, an entry
  without an end date, and an entry labelled \<open>"0"\<close>.
\<close>

definition samplePreseason :: calEntry where
  "samplePreseason =
     \<lparr> label = Some ''Hall of Fame Weekend'', startDate = Some ''2025-07-31T07:00Z'',
       endDate = Some ''2025-08-06T06:59Z'' \<rparr>"

definition sampleOpenEnded :: calEntry where
  "sampleOpenEnded = \<lparr> label = Some ''3'', startDate = Some ''2025-09-18T07:00Z'', endDate = None \<rparr>"

definition sampleWeek0 :: calEntry where
  "sampleWeek0 =
     \<lparr> label = Some ''0'', startDate = Some ''2025-08-28T07:00Z'', endDate = Some ''2025-09-03T06:59Z'' \<rparr>"

text \<open>
  A finished game whose winner, the Ravens, comes without the \<open>abbreviation\<close> field; the
  static table knows the Ravens as \<open>BAL\<close>.
\<close>

definition unabbreviatedWin :: event where
  "unabbreviatedWin =
     \<lparr> ev_date = Some ''2025-09-07T17:00Z'',
       competitions =
         [\<lparr> date = Some ''2025-09-07T17:00Z'',
            competitors =
              [\<lparr> homeAway = Some ''home'', winner = True,
                 team = Some \<lparr> shortDisplayName = Some ''Ravens'', name = Some ''Ravens'',
                               team_abbreviation = None \<rparr> \<rparr>,
               \<lparr> homeAway = Some ''away'', winner = False, team = sampleTeam ''Bills'' \<rparr>] \<rparr>] \<rparr>"

definition sampleWeek2Url :: string where
  "sampleWeek2Url = ESPN_SCOREBOARD @ ''?dates=20250911-20250917''"

text \<open>
  Requests, clock readings and environments for the cache examples: an environment whose
  store holds a week-1 entry that expired at 4000 ms, and one whose store is empty. No TTL
  is configured, so the default of 30 minutes applies.
\<close>

definition weekRequest :: request where
  "weekRequest = \<lparr> pathname = ''/api/week'', weekParam = Some ''1'' \<rparr>"


definition sampleClock :: clock where
  "sampleClock = \<lparr> nowAtCheck = 5000, generatedAt = ''Sep 07, 2025, 12:00 PM'', nowAtPut = 6000 \<rparr>"


definition stalePayload :: payload where
  "stalePayload =
     WeekPayload
       \<lparr> wp_season = Some 2025, wp_generated_at_ct = ''Sep 07, 2025, 11:00 AM'',
         wp_cache_ttl_minutes = JNum 30, wp_timezone = ''America/Chicago'',
         wp_grid = \<lparr> week = JNum 1, grid_currentWeek = Some 1, games = [],
                      week_label = Some ''1'', grid_startDate = Some ''2025-09-04T07:00Z'',
                      grid_endDate = Some ''2025-09-10T06:59Z'' \<rparr> \<rparr>"

definition staleStore :: kvStore where
  "staleStore = [''week_cache_v1_1'' \<mapsto> \<lparr> expires_at_ms = Some 4000, payload = stalePayload \<rparr>]"

definition staleEnv :: env where
  "staleEnv =
     \<lparr> CACHE_TTL_MINUTES = None, CONFIG_URL = Some sampleConfigUrl, POOL_KV = Some staleStore \<rparr>"


section \<open>Explicit owners and the unowned fallback\<close>

lemma proto_inherited: "''__proto__'' \<in> set objectPrototypeNames"
  by (simp add: objectPrototypeNames_def)

lemma roster_assign:
  "foldl (\<lambda>acc t. propertySet acc t ow) m roster t' =
     (if t' \<in> set roster \<and> t' \<noteq> ''__proto__'' then Some ow else m t')"
  by (induction roster arbitrary: m) (auto simp: propertySet_def)

lemma assignOwners_lookup:
  "assignOwners m os t =
     (if listing os t = [] \<or> t = ''__proto__'' then m t else Some (fst (last (listing os t))))"
proof (induction m os rule: assignOwners.induct)
  case (1 m)
  show ?case by (simp add: listing_def)
next
  case (2 m ow roster rest)
  let ?m' = "foldl (\<lambda>acc t. propertySet acc t ow) m roster"
  have ih: "assignOwners ?m' rest t =
          (if listing rest t = [] \<or> t = ''__proto__'' then ?m' t
           else Some (fst (last (listing rest t))))"
    by (rule 2)
  have m': "?m' t = (if t \<in> set roster \<and> t \<noteq> ''__proto__'' then Some ow else m t)"
    by (rule roster_assign)
  have step: "assignOwners m ((ow, roster) # rest) t = assignOwners ?m' rest t"
    by simp
  show ?case
  proof (cases "t = ''__proto__''")
    case True
    then show ?thesis unfolding step ih m' by simp
  next
    case False
    then show ?thesis unfolding step ih m' by (simp add: listing_def)
  qed
qed

lemma fillUnowned_keeps:
  "m t = Some v \<Longrightarrow> fillUnowned m us t = Some v"
proof (induction us arbitrary: m)
  case Nil
  then show ?case by simp
next
  case (Cons u us)
  have "(if hasProperty m u then m else propertySet m u ''Unowned'') t = Some v"
    using Cons.prems by (auto simp: hasProperty_def propertySet_def)
  then show ?case
    using Cons.IH by simp
qed

lemma fillUnowned_lookup:
  "fillUnowned m us t =
     (case m t of Some v \<Rightarrow> Some v
      | None \<Rightarrow> if t \<in> set us \<and> t \<notin> set objectPrototypeNames then Some ''Unowned'' else None)"
proof (induction m us rule: fillUnowned.induct)
  case (1 m)
  show ?case by (simp split: option.splits)
next
  case (2 m u us)
  let ?m' = "if hasProperty m u then m else propertySet m u ''Unowned''"
  have step: "fillUnowned m (u # us) t = fillUnowned ?m' us t"
    by simp
  have ih: "fillUnowned ?m' us t =
          (case ?m' t of Some v \<Rightarrow> Some v
           | None \<Rightarrow> if t \<in> set us \<and> t \<notin> set objectPrototypeNames then Some ''Unowned'' else None)"
    by (rule 2)
  have m': "?m' t = (if t = u \<and> m u = None \<and> u \<notin> set objectPrototypeNames
                    then Some ''Unowned'' else m t)"
    using proto_inherited by (auto simp: hasProperty_def propertySet_def)
  show ?case
    unfolding step ih m' by (cases "m t") auto
qed

lemma buildTeamToOwner_lookup:
  "buildTeamToOwner cfg t =
     (if listing (ownerEntries cfg) t \<noteq> [] \<and> t \<noteq> ''__proto__''
      then Some (fst (last (listing (ownerEntries cfg) t)))
      else if t \<in> set (unownedList cfg) \<and> t \<notin> set objectPrototypeNames then Some ''Unowned''
      else None)"
  by (simp add: buildTeamToOwner_def fillUnowned_lookup assignOwners_lookup)

section \<open>The sort\<close>

lemma mset_insertSorted: "mset (insertSorted cmp x ys) = add_mset x (mset ys)"
  by (induction ys) auto

lemma mset_arraySort: "mset (arraySort cmp xs) = mset xs"
  by (induction xs) (auto simp: arraySort_def mset_insertSorted)

lemma set_arraySort: "set (arraySort cmp xs) = set xs"
  using mset_arraySort [of cmp xs] by (metis set_mset_mset)


lemma sorted_insertSorted:
  assumes total: "\<And>a b. P a \<Longrightarrow> P b \<Longrightarrow> cmp a b \<le> 0 \<or> cmp b a \<le> 0"
      and trans: "\<And>a b c. P a \<Longrightarrow> P b \<Longrightarrow> P c \<Longrightarrow> cmp a b \<le> 0 \<Longrightarrow> cmp b c \<le> 0 \<Longrightarrow> cmp a c \<le> 0"
      and "P x" and "\<forall>y\<in>set ys. P y"
      and "sorted_wrt (\<lambda>a b. cmp a b \<le> 0) ys"
  shows "sorted_wrt (\<lambda>a b. cmp a b \<le> 0) (insertSorted cmp x ys)"
  using assms(3-)
proof (induction ys)
  case Nil
  then show ?case by simp
next
  case (Cons y ys)
  show ?case
  proof (cases "cmp x y \<le> 0")
    case True
    have "\<forall>z\<in>set ys. cmp x z \<le> 0"
    proof
      fix z assume z: "z \<in> set ys"
      then have "cmp y z \<le> 0" using Cons.prems(3) by simp
      with True show "cmp x z \<le> 0"
        using trans [of x y z] Cons.prems(1,2) z by simp
    qed
    with True Cons.prems(3) show ?thesis by simp
  next
    case False
    then have yx: "cmp y x \<le> 0"
      using total [of x y] Cons.prems(1,2) by simp
    have IH: "sorted_wrt (\<lambda>a b. cmp a b \<le> 0) (insertSorted cmp x ys)"
      using Cons.IH Cons.prems by simp
    have "set (insertSorted cmp x ys) = insert x (set ys)"
      using mset_insertSorted [of cmp x ys] by (metis set_mset_mset set_mset_add_mset_insert)
    with False yx IH Cons.prems(3) show ?thesis by simp
  qed
qed

lemma sorted_arraySort:
  assumes total: "\<And>a b. P a \<Longrightarrow> P b \<Longrightarrow> cmp a b \<le> 0 \<or> cmp b a \<le> 0"
      and trans: "\<And>a b c. P a \<Longrightarrow> P b \<Longrightarrow> P c \<Longrightarrow> cmp a b \<le> 0 \<Longrightarrow> cmp b c \<le> 0 \<Longrightarrow> cmp a c \<le> 0"
      and "\<forall>x\<in>set xs. P x"
  shows "sorted_wrt (\<lambda>a b. cmp a b \<le> 0) (arraySort cmp xs)"
  using assms(3)
proof (induction xs)
  case Nil
  then show ?case by (simp add: arraySort_def)
next
  case (Cons x xs)
  have "sorted_wrt (\<lambda>a b. cmp a b \<le> 0) (insertSorted cmp x (arraySort cmp xs))"
  proof (rule sorted_insertSorted [where P = P])
    show "\<And>a b. P a \<Longrightarrow> P b \<Longrightarrow> cmp a b \<le> 0 \<or> cmp b a \<le> 0" by (rule total)
    show "\<And>a b c. P a \<Longrightarrow> P b \<Longrightarrow> P c \<Longrightarrow> cmp a b \<le> 0 \<Longrightarrow> cmp b c \<le> 0 \<Longrightarrow> cmp a c \<le> 0"
      by (rule trans)
    show "P x" using Cons.prems by simp
    show "\<forall>y\<in>set (arraySort cmp xs). P y" using Cons.prems by (simp add: set_arraySort)
    show "sorted_wrt (\<lambda>a b. cmp a b \<le> 0) (arraySort cmp xs)" using Cons by simp
  qed
  then show ?case by (simp add: arraySort_def)
qed

lemma consistent_total: "consistentCompare cmp \<Longrightarrow> cmp a b \<le> 0 \<or> cmp b a \<le> 0"
  unfolding consistentCompare_def by (metis not_le order_less_imp_le)

lemma consistent_trans:
  "consistentCompare cmp \<Longrightarrow> cmp a b \<le> 0 \<Longrightarrow> cmp b c \<le> 0 \<Longrightarrow> cmp a c \<le> 0"
  unfolding consistentCompare_def by blast

lemma consistent_flip: "consistentCompare cmp \<Longrightarrow> (cmp a b < 0) = (0 < cmp b a)"
  unfolding consistentCompare_def by blast

lemma consistent_zero: "consistentCompare cmp \<Longrightarrow> (cmp a b = 0) = (cmp b a = 0)"
  using consistent_flip [of cmp a b] consistent_flip [of cmp b a] by linarith

lemma codeUnitCompare_flip: "(codeUnitCompare a b < 0) = (0 < codeUnitCompare b a)"
  by (induction a b rule: codeUnitCompare.induct) auto

lemma codeUnitCompare_trans:
  "codeUnitCompare a b \<le> 0 \<Longrightarrow> codeUnitCompare b c \<le> 0 \<Longrightarrow> codeUnitCompare a c \<le> 0"
proof (induction a arbitrary: b c)
  case Nil
  then show ?case by (cases c) auto
next
  case (Cons x xs)
  then show ?case
    by (cases b; cases c) (auto split: if_splits)
qed

lemma consistent_codeUnitCompare: "consistentCompare codeUnitCompare"
  unfolding consistentCompare_def
  using codeUnitCompare_flip codeUnitCompare_trans by blast

lemma consistent_sampleHost: "consistentCompare (localeCompare sampleHost)"
  by (simp add: sampleHost_def consistent_codeUnitCompare)

section \<open>The standings comparator\<close>

lemma standingsCompare_le: "(standingsCompare h a b \<le> 0) = standingsOrder h a b"
  by (auto simp: standingsCompare_def standingsOrder_def)

lemma standingsCompare_total:
  assumes "consistentCompare (localeCompare h)"
  shows "standingsCompare h a b \<le> 0 \<or> standingsCompare h b a \<le> 0"
  using consistent_total [OF assms, of "owner a" "owner b"]
  by (auto simp: standingsCompare_def)

lemma standingsCompare_trans:
  assumes "consistentCompare (localeCompare h)"
      and "standingsCompare h a b \<le> 0" and "standingsCompare h b c \<le> 0"
  shows "standingsCompare h a c \<le> 0"
proof -
  have ab: "standingsOrder h a b" and bc: "standingsOrder h b c"
    using assms(2,3) by (simp_all add: standingsCompare_le)
  have "standingsOrder h a c"
  proof (cases "total_wins a = total_wins b \<and> total_wins b = total_wins c")
    case True
    then have "localeCompare h (owner a) (owner b) \<le> 0" and "localeCompare h (owner b) (owner c) \<le> 0"
      using ab bc by (auto simp: standingsOrder_def)
    then have "localeCompare h (owner a) (owner c) \<le> 0"
      by (rule consistent_trans [OF assms(1)])
    with True show ?thesis by (simp add: standingsOrder_def)
  next
    case False
    then show ?thesis
      using ab bc by (auto simp: standingsOrder_def)
  qed
  then show ?thesis by (simp add: standingsCompare_le)
qed

lemma sorted_standings:
  assumes "consistentCompare (localeCompare h)"
  shows "sorted_wrt (standingsOrder h) (arraySort (standingsCompare h) rows)"
proof -
  have "sorted_wrt (\<lambda>a b. standingsCompare h a b \<le> 0) (arraySort (standingsCompare h) rows)"
  proof (rule sorted_arraySort [where P = "\<lambda>_. True"])
    show "\<And>a b. True \<Longrightarrow> True \<Longrightarrow> standingsCompare h a b \<le> 0 \<or> standingsCompare h b a \<le> 0"
      by (rule standingsCompare_total [OF assms])
    show "\<And>a b c. True \<Longrightarrow> True \<Longrightarrow> True \<Longrightarrow> standingsCompare h a b \<le> 0
            \<Longrightarrow> standingsCompare h b c \<le> 0 \<Longrightarrow> standingsCompare h a c \<le> 0"
      by (rule standingsCompare_trans [OF assms])
    show "\<forall>x\<in>set rows. True" by simp
  qed
  then show ?thesis by (simp add: standingsCompare_le)
qed

lemma sample_standings:
  "buildResponse sampleHost sampleConfig sampleWins =
     Inr \<lparr> standings =
             [\<lparr> owner = ''Bob'', total_wins = 5,
                teams = [\<lparr> row_team = ''Bills'', abbr = ''BUF'', wins = 3 \<rparr>,
                         \<lparr> row_team = ''Cowboys'', abbr = ''DAL'', wins = 2 \<rparr>] \<rparr>,
              \<lparr> owner = ''Alice'', total_wins = 1,
                teams = [\<lparr> row_team = ''Ravens'', abbr = ''BAL'', wins = 1 \<rparr>,
                         \<lparr> row_team = ''Chiefs'', abbr = ''KC'', wins = 0 \<rparr>] \<rparr>],
           core_unowned = [\<lparr> row_team = ''Bears'', abbr = ''CHI'', wins = 0 \<rparr>,
                           \<lparr> row_team = ''Lions'', abbr = ''DET'', wins = 0 \<rparr>] \<rparr>"
  by code_simp

section \<open>The week-grid comparator\<close>

lemma gamesCompare_le:
  assumes "kickoffMs h a \<noteq> None" and "kickoffMs h b \<noteq> None"
  shows "(gamesCompare h a b \<le> 0) = inGridOrder h a b"
proof -
  obtain ta tb where t: "kickoffMs h a = Some ta" "kickoffMs h b = Some tb"
    using assms by auto
  show ?thesis
    unfolding gamesCompare_def inGridOrder_def t Let_def
    by (cases "ta = tb"; cases "localeCompare h (away a) (away b) = 0") auto
qed

lemma names_strict:
  assumes c: "consistentCompare cmp" and "cmp x y < 0" and "cmp y z \<le> 0"
  shows "cmp x z < 0"
proof (rule ccontr)
  assume "\<not> cmp x z < 0"
  then have "cmp z x \<le> 0"
    using consistent_flip [OF c, of z x] consistent_zero [OF c, of x z] by linarith
  with assms(3) have "cmp y x \<le> 0"
    by (rule consistent_trans [OF c])
  with assms(2) consistent_flip [OF c, of x y] show False by simp
qed

lemma names_strict':
  assumes c: "consistentCompare cmp" and "cmp x y \<le> 0" and "cmp y z < 0"
  shows "cmp x z < 0"
proof (rule ccontr)
  assume "\<not> cmp x z < 0"
  then have "cmp z x \<le> 0"
    using consistent_flip [OF c, of z x] consistent_zero [OF c, of x z] by linarith
  then have "cmp z y \<le> 0"
    using assms(2) by (rule consistent_trans [OF c])
  with assms(3) consistent_flip [OF c, of y z] show False by simp
qed

lemma names_zero:
  assumes c: "consistentCompare cmp" and "cmp x y = 0" and "cmp y z = 0"
  shows "cmp x z = 0"
proof -
  have "cmp x z \<le> 0"
    using assms(2,3) consistent_trans [OF c, of x y z] by simp
  moreover have "cmp z x \<le> 0"
    using assms(2,3) consistent_zero [OF c, of x y] consistent_zero [OF c, of y z]
      consistent_trans [OF c, of z y x] by simp
  ultimately show ?thesis
    using consistent_flip [OF c, of x z] by linarith
qed

lemma inGridOrder_total:
  assumes c: "consistentCompare (localeCompare h)"
      and "kickoffMs h a \<noteq> None" and "kickoffMs h b \<noteq> None"
  shows "inGridOrder h a b \<or> inGridOrder h b a"
proof -
  obtain ta tb where t: "kickoffMs h a = Some ta" "kickoffMs h b = Some tb"
    using assms(2,3) by auto
  let ?A = "\<lambda>p q. localeCompare h (away p) (away q)"
  let ?H = "\<lambda>p q. localeCompare h (home p) (home q)"
  show ?thesis
  proof (cases "ta = tb")
    case False
    then have "ta < tb \<or> tb < ta" by linarith
    then show ?thesis by (auto simp: inGridOrder_def t)
  next
    case True
    show ?thesis
    proof (cases "?A a b = 0")
      case True
      then have "?A b a = 0" using consistent_zero [OF c] by blast
      moreover have "?H a b \<le> 0 \<or> ?H b a \<le> 0" by (rule consistent_total [OF c])
      ultimately show ?thesis using True \<open>ta = tb\<close> by (auto simp: inGridOrder_def t)
    next
      case False
      then have "?A a b < 0 \<or> 0 < ?A a b" by linarith
      then have "?A a b < 0 \<or> ?A b a < 0" using consistent_flip [OF c] by blast
      then show ?thesis using \<open>ta = tb\<close> by (auto simp: inGridOrder_def t)
    qed
  qed
qed

lemma inGridOrder_trans:
  assumes c: "consistentCompare (localeCompare h)"
      and "kickoffMs h a \<noteq> None" and "kickoffMs h b \<noteq> None" and "kickoffMs h x \<noteq> None"
      and ab: "inGridOrder h a b" and bx: "inGridOrder h b x"
  shows "inGridOrder h a x"
proof -
  obtain ta tb tx where t: "kickoffMs h a = Some ta" "kickoffMs h b = Some tb" "kickoffMs h x = Some tx"
    using assms(2,3,4) by auto
  let ?A = "\<lambda>p q. localeCompare h (away p) (away q)"
  let ?H = "\<lambda>p q. localeCompare h (home p) (home q)"
  from ab have ab': "ta < tb \<or> (ta = tb \<and> (?A a b < 0 \<or> (?A a b = 0 \<and> ?H a b \<le> 0)))"
    by (simp add: inGridOrder_def t)
  from bx have bx': "tb < tx \<or> (tb = tx \<and> (?A b x < 0 \<or> (?A b x = 0 \<and> ?H b x \<le> 0)))"
    by (simp add: inGridOrder_def t)
  have goal: "ta < tx \<or> (ta = tx \<and> (?A a x < 0 \<or> (?A a x = 0 \<and> ?H a x \<le> 0)))"
  proof (cases "ta = tb \<and> tb = tx")
    case False
    then show ?thesis using ab' bx' by auto
  next
    case True
    have names: "?A a x < 0 \<or> (?A a x = 0 \<and> ?H a x \<le> 0)"
    proof (cases "?A a b < 0")
      case True
      moreover have "?A b x \<le> 0" using bx' \<open>ta = tb \<and> tb = tx\<close> by auto
      ultimately show ?thesis using names_strict [OF c] by blast
    next
      case ab0: False
      then have a0: "?A a b = 0" and h1: "?H a b \<le> 0"
        using ab' \<open>ta = tb \<and> tb = tx\<close> by auto
      show ?thesis
      proof (cases "?A b x < 0")
        case True
        then show ?thesis using a0 names_strict' [OF c, of "away a" "away b" "away x"] by simp
      next
        case False
        then have b0: "?A b x = 0" and h2: "?H b x \<le> 0"
          using bx' \<open>ta = tb \<and> tb = tx\<close> by auto
        have "?A a x = 0" using a0 b0 by (rule names_zero [OF c])
        moreover have "?H a x \<le> 0" using h1 h2 by (rule consistent_trans [OF c])
        ultimately show ?thesis by simp
      qed
    qed
    with True show ?thesis by simp
  qed
  then show ?thesis by (simp add: inGridOrder_def t)
qed

lemma sorted_games:
  assumes c: "consistentCompare (localeCompare h)"
      and p: "\<forall>r\<in>set rows. kickoffMs h r \<noteq> None"
  shows "sorted_wrt (inGridOrder h) (arraySort (gamesCompare h) rows)"
proof -
  let ?P = "\<lambda>r. kickoffMs h r \<noteq> None"
  have s: "sorted_wrt (\<lambda>a b. gamesCompare h a b \<le> 0) (arraySort (gamesCompare h) rows)"
  proof (rule sorted_arraySort [where P = ?P])
    fix a b assume "?P a" "?P b"
    then show "gamesCompare h a b \<le> 0 \<or> gamesCompare h b a \<le> 0"
      using inGridOrder_total [OF c, of a b] by (simp add: gamesCompare_le)
  next
    fix a b x assume P: "?P a" "?P b" "?P x"
      and le: "gamesCompare h a b \<le> 0" "gamesCompare h b x \<le> 0"
    have "inGridOrder h a b" "inGridOrder h b x"
      using le P by (simp_all add: gamesCompare_le)
    then have "inGridOrder h a x"
      using inGridOrder_trans [OF c, of a b x] P by simp
    then show "gamesCompare h a x \<le> 0"
      using P by (simp add: gamesCompare_le)
  next
    show "\<forall>r\<in>set rows. ?P r" by (rule p)
  qed
  have "\<forall>r\<in>set (arraySort (gamesCompare h) rows). ?P r"
    using p by (simp add: set_arraySort)
  then have "\<And>a b. a \<in> set (arraySort (gamesCompare h) rows) \<Longrightarrow> b \<in> set (arraySort (gamesCompare h) rows)
               \<Longrightarrow> gamesCompare h a b \<le> 0 \<Longrightarrow> inGridOrder h a b"
    by (simp add: gamesCompare_le)
  then show ?thesis
    using s by (rule sorted_wrt_mono_rel)
qed

section \<open>The rows of the week grid\<close>

lemma gridStep_append:
  "gridStep m acc ev = acc @ gridStep m [] ev"
  by (simp add: gridStep_def Let_def split: option.splits)

lemma foldl_gridStep:
  "foldl (gridStep m) acc evs = acc @ concat (map (gridStep m []) evs)"
proof (induction evs arbitrary: acc)
  case Nil
  show ?case by simp
next
  case (Cons ev evs)
  have "foldl (gridStep m) acc (ev # evs) = foldl (gridStep m) (gridStep m acc ev) evs"
    by simp
  also have "\<dots> = gridStep m acc ev @ concat (map (gridStep m []) evs)"
    by (rule Cons.IH)
  also have "\<dots> = acc @ gridStep m [] ev @ concat (map (gridStep m []) evs)"
    using gridStep_append [of m acc ev] by simp
  finally show ?case by simp
qed

lemma weekGames_concat: "weekGames m evs = concat (map (gridStep m []) evs)"
  by (simp add: weekGames_def foldl_gridStep)

lemma matchupRow_owners:
  "awayOwner (matchupRow m ev (cpt, aw, hm)) = ownerOf m (normalizeTeamName (team aw))"
  "homeOwner (matchupRow m ev (cpt, aw, hm)) = ownerOf m (normalizeTeamName (team hm))"
  "away (matchupRow m ev (cpt, aw, hm)) = normalizeTeamName (team aw)"
  "home (matchupRow m ev (cpt, aw, hm)) = normalizeTeamName (team hm)"
  by (simp_all add: matchupRow_def Let_def)

lemma in_gridStep:
  "r \<in> set (gridStep m [] ev) \<longleftrightarrow>
     (\<exists>cpt aw hm. matchup ev = Some (cpt, aw, hm) \<and> r = matchupRow m ev (cpt, aw, hm)
        \<and> \<not> (ownerOf m (normalizeTeamName (team aw)) = Str ''Unowned''
               \<and> ownerOf m (normalizeTeamName (team hm)) = Str ''Unowned''))"
proof (cases "matchup ev")
  case None
  then show ?thesis by (simp add: gridStep_def)
next
  case (Some mu)
  obtain cpt aw hm where mu: "mu = (cpt, aw, hm)" by (cases mu) auto
  show ?thesis
    unfolding gridStep_def Some mu Let_def
    by (auto simp: matchupRow_owners)
qed

lemma in_weekGames:
  "r \<in> set (weekGames m evs) \<longleftrightarrow>
     (\<exists>ev\<in>set evs. \<exists>cpt aw hm. matchup ev = Some (cpt, aw, hm) \<and> r = matchupRow m ev (cpt, aw, hm)
        \<and> \<not> (ownerOf m (normalizeTeamName (team aw)) = Str ''Unowned''
               \<and> ownerOf m (normalizeTeamName (team hm)) = Str ''Unowned''))"
  by (simp add: weekGames_concat in_gridStep)

text \<open>The date-range URL of a regular entry is always defined: lines 75-76 raise no TypeError.\<close>

lemma regular_datesUrl:
  assumes "regularEntry e"
  shows "\<exists>url. datesUrl e = Inr url"
proof -
  obtain s where s: "startDate e = Some s"
    using assms by (auto simp: regularEntry_def truthy_def split: option.splits)
  obtain t where t: "endDate e = Some t"
    using assms by (auto simp: regularEntry_def truthy_def split: option.splits)
  show ?thesis by (simp add: datesUrl_def compactDate_def s t)
qed

lemma weekEntries_regular:
  assumes "getRegularSeasonWeekEntries up fetched = (Inr we, fetched')"
  shows "\<exists>sb cal. getScoreboard up = Inr sb \<and> calendarEntries sb = Inr cal
           \<and> regularEntries we = take 18 (filter regularEntry cal)
           \<and> currentWeek we = (case weekNumber sb of None \<Rightarrow> None
                                 | Some n \<Rightarrow> if n = 0 then None else Some n)
           \<and> fetched' = fetched @ [ESPN_SCOREBOARD]"
  using assms
  by (auto simp: getRegularSeasonWeekEntries_def fetchJson_def split: sum.splits)

lemma fetchWeekGrid_no_window:
  assumes "getRegularSeasonWeekEntries up fetched = (Inr we, fetched1)"
      and "find (\<lambda>e. strictEq (labelNumber h e) (requestedWeek h wp (currentWeek we)))
             (regularEntries we) = None"
  shows "fetchWeekGrid h up wp cfg fetched =
           (Inr \<lparr> week = requestedWeek h wp (currentWeek we), grid_currentWeek = currentWeek we,
                  games = [], week_label = None, grid_startDate = None, grid_endDate = None \<rparr>,
            fetched1)"
  using assms by (simp add: fetchWeekGrid_def Let_def)

lemma fetchWeekGrid_window:
  assumes "getRegularSeasonWeekEntries up fetched = (Inr we, fetched1)"
      and "find (\<lambda>e. strictEq (labelNumber h e) (requestedWeek h wp (currentWeek we)))
             (regularEntries we) = Some entry"
      and "datesUrl entry = Inr url"
      and "getDates up url = Inr wd"
  shows "fetchWeekGrid h up wp cfg fetched =
           (Inr \<lparr> week = requestedWeek h wp (currentWeek we), grid_currentWeek = currentWeek we,
                  games = arraySort (gamesCompare h) (weekGames (buildTeamToOwner cfg) (events wd)),
                  week_label = label entry, grid_startDate = startDate entry,
                  grid_endDate = endDate entry \<rparr>,
            fetched1 @ [url])"
  using assms by (simp add: fetchWeekGrid_def Let_def fetchJson_def)

lemma fetchWeekGrid_games:
  assumes "fetchWeekGrid h up wp cfg fetched = (Inr g, fetched')"
  shows "games g = [] \<or>
         (\<exists>wd::weekData.
            games g = arraySort (gamesCompare h) (weekGames (buildTeamToOwner cfg) (events wd)))"
proof -
  obtain r1 f1 where e1: "getRegularSeasonWeekEntries up fetched = (r1, f1)"
    by (cases "getRegularSeasonWeekEntries up fetched") auto
  then obtain we where we: "getRegularSeasonWeekEntries up fetched = (Inr we, f1)"
    using assms by (cases r1) (auto simp: fetchWeekGrid_def)
  let ?found = "find (\<lambda>e. strictEq (labelNumber h e) (requestedWeek h wp (currentWeek we)))
                  (regularEntries we)"
  show ?thesis
  proof (cases ?found)
    case None
    then show ?thesis
      using fetchWeekGrid_no_window [OF we, of h wp cfg] assms by auto
  next
    case (Some entry)
    show ?thesis
    proof (cases "datesUrl entry")
      case (Inl err)
      then show ?thesis
        using assms we Some by (simp add: fetchWeekGrid_def Let_def)
    next
      case (Inr url)
      show ?thesis
      proof (cases "getDates up url")
        case (Inl st)
        then show ?thesis
          using assms we Some Inr by (simp add: fetchWeekGrid_def Let_def fetchJson_def)
      next
        case wd: (Inr wd)
        have "games g = arraySort (gamesCompare h) (weekGames (buildTeamToOwner cfg) (events wd))"
          using fetchWeekGrid_window [OF we Some Inr wd, of cfg] assms by auto
        then show ?thesis by blast
      qed
    qed
  qed
qed



lemma regularEntry_fields:
  assumes "regularEntry e"
  shows "(\<exists>l. label e = Some l \<and> l \<noteq> [] \<and> (\<forall>c\<in>set l. c \<in> set ''0123456789''))
       \<and> (\<exists>s. startDate e = Some s \<and> s \<noteq> [])
       \<and> (\<exists>s. endDate e = Some s \<and> s \<noteq> [])"
  using assms
  by (auto simp: regularEntry_def truthy_def isDigits_def list_all_iff split: option.splits)

section \<open>Evaluating the samples\<close>

lemma sample_entries:
  "getRegularSeasonWeekEntries (sampleUpstream [sampleWeek1, sampleWeek2] src evs) [] =
     (Inr \<lparr> regularEntries = [sampleWeek1, sampleWeek2], currentWeek = Some 1 \<rparr>,
      [ESPN_SCOREBOARD])"
  by (simp add: getRegularSeasonWeekEntries_def sampleUpstream_def fetchJson_def calendarEntries_def
      regularEntry_def sampleWeek1_def sampleWeek2_def truthy_def isDigits_def)

lemma sample_number: "toNumber sampleHost ''1'' = JNum 1" "toNumber sampleHost ''2'' = JNum 2"
  "toNumber sampleHost ''99'' = JNum 99"
  by (simp_all add: sampleHost_def isDigits_def decimalValue_def)

lemma sample_week1_url: "datesUrl sampleWeek1 = Inr sampleWeek1Url"
  by (simp add: datesUrl_def compactDate_def sampleWeek1_def sampleWeek1Url_def)

lemma sample_found:
  "find (\<lambda>e. strictEq (labelNumber sampleHost e)
               (requestedWeek sampleHost (Some ''1'')
                  (currentWeek \<lparr> regularEntries = [sampleWeek1, sampleWeek2], currentWeek = Some 1 \<rparr>)))
     (regularEntries \<lparr> regularEntries = [sampleWeek1, sampleWeek2], currentWeek = Some 1 \<rparr>)
   = Some sampleWeek1"
  by (simp add: requestedWeek_def labelNumber_def sampleWeek1_def sample_number strictEq_def)

lemma sample_dates:
  "getDates (sampleUpstream cal src evs) sampleWeek1Url = Inr \<lparr> events = evs \<rparr>"
  by (simp add: sampleUpstream_def)

lemma sample_grid:
  "fetchWeekGrid sampleHost (sampleUpstream [sampleWeek1, sampleWeek2] src evs) (Some ''1'') cfg [] =
     (Inr \<lparr> week = JNum 1, grid_currentWeek = Some 1,
            games = arraySort (gamesCompare sampleHost) (weekGames (buildTeamToOwner cfg) evs),
            week_label = Some ''1'', grid_startDate = Some ''2025-09-04T07:00Z'',
            grid_endDate = Some ''2025-09-10T06:59Z'' \<rparr>,
      [ESPN_SCOREBOARD, sampleWeek1Url])"
  unfolding fetchWeekGrid_window [OF sample_entries sample_found sample_week1_url sample_dates, where cfg = cfg]
  by (simp add: sampleWeek1_def requestedWeek_def sample_number)

lemma sample_games:
  "arraySort (gamesCompare sampleHost) (weekGames (buildTeamToOwner sampleConfig) sampleEvents) =
     [\<lparr> kickoff_utc = None, away = ''Bears'', home = ''Chiefs'', row_winner = None,
        awayOwner = Str ''Unowned'', homeOwner = Str ''Alice'', winningOwner = Str ''-'' \<rparr>,
      \<lparr> kickoff_utc = Some ''2025-09-05T00:20Z'', away = ''Cowboys'', home = ''Eagles'',
        row_winner = Some ''Eagles'', awayOwner = Str ''Bob'', homeOwner = Str ''-'', winningOwner = Str ''-'' \<rparr>,
      \<lparr> kickoff_utc = Some ''2025-09-07T17:00Z'', away = ''Jets'', home = ''Giants'',
        row_winner = None, awayOwner = Str ''-'', homeOwner = Str ''-'', winningOwner = Str ''-'' \<rparr>,
      \<lparr> kickoff_utc = Some ''2025-09-07T17:00Z'', away = ''Ravens'', home = ''Bills'',
        row_winner = Some ''Bills'', awayOwner = Str ''Alice'', homeOwner = Str ''Bob'', winningOwner = Str ''Bob'' \<rparr>]"
  by code_simp

lemma undated_games:
  "arraySort (gamesCompare sampleHost) (weekGames (buildTeamToOwner sampleConfig) undatedEvents) =
     [\<lparr> kickoff_utc = Some ''2025-09-07T17:00Z'', away = ''Bears'', home = ''Ravens'',
        row_winner = None, awayOwner = Str ''Unowned'', homeOwner = Str ''Alice'', winningOwner = Str ''-'' \<rparr>,
      \<lparr> kickoff_utc = Some ''TBD'', away = ''Chiefs'', home = ''Bills'',
        row_winner = None, awayOwner = Str ''Alice'', homeOwner = Str ''Bob'', winningOwner = Str ''-'' \<rparr>,
      \<lparr> kickoff_utc = Some ''2025-09-05T00:20Z'', away = ''Cowboys'', home = ''Eagles'',
        row_winner = None, awayOwner = Str ''Bob'', homeOwner = Str ''-'', winningOwner = Str ''-'' \<rparr>]"
  by code_simp

lemma preepoch_games:
  "arraySort (gamesCompare sampleHost) (weekGames (buildTeamToOwner sampleConfig) preEpochEvents) =
     [\<lparr> kickoff_utc = Some ''1969-12-31T23:59:59.999Z'', away = ''Ravens'', home = ''Bills'',
        row_winner = None, awayOwner = Str ''Alice'', homeOwner = Str ''Bob'', winningOwner = Str ''-'' \<rparr>,
      \<lparr> kickoff_utc = None, away = ''Bears'', home = ''Chiefs'', row_winner = None,
        awayOwner = Str ''Unowned'', homeOwner = Str ''Alice'', winningOwner = Str ''-'' \<rparr>]"
  by code_simp

lemma unowned_owner_games:
  "arraySort (gamesCompare sampleHost)
     (weekGames (buildTeamToOwner unownedOwnerConfig)
        [sampleGame (Some ''2025-09-07T17:00Z'') ''Bears'' ''Lions'' None]) = []"
  by code_simp

lemma inherited_name_games:
  "arraySort (gamesCompare sampleHost)
     (weekGames (buildTeamToOwner sampleConfig)
        [sampleGame (Some ''2025-09-07T17:00Z'') ''constructor'' ''Giants'' None]) =
     [\<lparr> kickoff_utc = Some ''2025-09-07T17:00Z'', away = ''constructor'', home = ''Giants'',
        row_winner = None, awayOwner = Inherited ''constructor'', homeOwner = Str ''-'',
        winningOwner = Str ''-'' \<rparr>]"
  by code_simp

lemma sample_calendar:
  "getRegularSeasonWeekEntries
     (sampleUpstream (samplePreseason # sampleOpenEnded # replicate 20 sampleWeek1) sampleConfig []) [] =
     (Inr \<lparr> regularEntries = replicate 18 sampleWeek1, currentWeek = Some 1 \<rparr>, [ESPN_SCOREBOARD])"
  by code_simp

lemma sample_zero_calendar:
  "getRegularSeasonWeekEntries (sampleUpstream [sampleWeek0, sampleWeek1] sampleConfig []) [] =
     (Inr \<lparr> regularEntries = [sampleWeek0, sampleWeek1], currentWeek = Some 1 \<rparr>, [ESPN_SCOREBOARD])"
  by code_simp

lemma sample_week2_url: "datesUrl sampleWeek2 = Inr sampleWeek2Url"
  by (simp add: datesUrl_def compactDate_def sampleWeek2_def sampleWeek2Url_def)

lemma sample_dates2:
  "getDates (sampleUpstream cal src evs) sampleWeek2Url = Inr \<lparr> events = [] \<rparr>"
  by (simp add: sampleUpstream_def sampleWeek1Url_def sampleWeek2Url_def)

lemma sample_season:
  "computeTeamWinsForSeason (sampleUpstream [sampleWeek1, sampleWeek2] src evs) y [] =
     (Inr (countWeek (countWeek initialWins \<lparr> events = evs \<rparr>) \<lparr> events = [] \<rparr>),
      [ESPN_SCOREBOARD, sampleWeek1Url, sampleWeek2Url])"
  by (simp add: computeTeamWinsForSeason_def sample_entries sample_week1_url sample_week2_url
      sample_dates sample_dates2 fetchJson_def)

lemma unabbreviated_count:
  "countWeek (countWeek initialWins \<lparr> events = [unabbreviatedWin] \<rparr>) \<lparr> events = [] \<rparr> ''BAL'' = Some 0"
  by code_simp

section \<open>Teams the configuration does not mention\<close>

lemma listing_empty: "(listing (ownerEntries cfg) n = []) = (n \<notin> rostered cfg)"
  by (auto simp: listing_def rostered_def filter_empty_conv)

lemma absent_lookup:
  assumes "n \<notin> rostered cfg" and "n \<notin> set (unownedList cfg)"
  shows "buildTeamToOwner cfg n = None"
  using assms by (simp add: buildTeamToOwner_lookup listing_empty)

lemma ownerOf_Unowned: "(ownerOf m n = Str ''Unowned'') = (m n = Some ''Unowned'')"
  by (auto simp: ownerOf_def split: option.splits)

lemma Unowned_lookup:
  assumes "buildTeamToOwner cfg n = Some ''Unowned''"
      and "''Unowned'' \<notin> fst ` set (ownerEntries cfg)"
  shows "n \<in> set (unownedList cfg) \<and> n \<notin> rostered cfg"
proof (cases "listing (ownerEntries cfg) n = []")
  case True
  then show ?thesis
    using assms(1) by (simp add: buildTeamToOwner_lookup listing_empty split: if_splits)
next
  case False
  then have "last (listing (ownerEntries cfg) n) \<in> set (listing (ownerEntries cfg) n)"
    by simp
  then have "last (listing (ownerEntries cfg) n) \<in> set (ownerEntries cfg)"
    by (simp add: listing_def)
  then have "fst (last (listing (ownerEntries cfg) n)) \<in> fst ` set (ownerEntries cfg)"
    by (rule imageI)
  moreover have "fst (last (listing (ownerEntries cfg) n)) = ''Unowned''"
    using assms(1) False proto_inherited
    by (auto simp: buildTeamToOwner_lookup split: if_splits)
  ultimately show ?thesis
    using assms(2) by simp
qed

section \<open>The cache in the two endpoints\<close>

lemma ttlMinutes_uncached [simp]: "ttlMinutes h (uncached ev) = ttlMinutes h ev"
  by (simp add: ttlMinutes_def uncached_def)

lemma cacheLookup_fresh:
  "fresh now (store k) \<Longrightarrow> \<exists>c. store k = Some c \<and> cacheLookup (Some store) k now = Some (payload c)"
  by (cases "store k") (simp_all add: cacheLookup_def fresh_def)

lemma cacheLookup_stale:
  "\<not> fresh now (store k) \<Longrightarrow> cacheLookup (Some store) k now = None"
  by (cases "store k") (simp_all add: cacheLookup_def)

lemma weekEndpoint_hit:
  assumes "cacheLookup (POOL_KV ev) (weekCacheKey (weekParam req)) (nowAtCheck clk) = Some p"
  shows "weekEndpoint h up clk ev req cfg fetched = (Inr (Served p False), POOL_KV ev, fetched)"
  using assms by (simp add: weekEndpoint_def Let_def)

lemma weekEndpoint_uncached:
  "weekEndpoint h up clk (uncached ev) req cfg fetched =
     (case fetchWeekGrid h up (weekParam req) cfg fetched of
        (Inl e, fetched') \<Rightarrow> (Inl e, None, fetched')
      | (Inr g, fetched') \<Rightarrow>
          (Inr (Served (WeekPayload
                  \<lparr> wp_season = season cfg, wp_generated_at_ct = generatedAt clk,
                    wp_cache_ttl_minutes = ttlMinutes h ev,
                    wp_timezone = (case timezone cfg of None \<Rightarrow> ''America/Chicago''
                                   | Some z \<Rightarrow> if z = [] then ''America/Chicago'' else z),
                    wp_grid = g \<rparr>) True), None, fetched'))"
  by (simp add: weekEndpoint_def Let_def cacheLookup_def cacheStore_def uncached_def
      ttlMinutes_def split: prod.splits sum.splits)

lemma weekEndpoint_miss:
  assumes "cacheLookup (POOL_KV ev) (weekCacheKey (weekParam req)) (nowAtCheck clk) = None"
  shows "weekEndpoint h up clk ev req cfg fetched =
     (case weekEndpoint h up clk (uncached ev) req cfg fetched of
        (Inl e, kv, fetched') \<Rightarrow> (Inl e, POOL_KV ev, fetched')
      | (Inr NotFound, kv, fetched') \<Rightarrow> (Inr NotFound, POOL_KV ev, fetched')
      | (Inr MissingConfigUrl, kv, fetched') \<Rightarrow> (Inr MissingConfigUrl, POOL_KV ev, fetched')
      | (Inr (Served p b), kv, fetched') \<Rightarrow>
          (Inr (Served p True),
           cacheStore (POOL_KV ev) (weekCacheKey (weekParam req)) (nowAtPut clk) (ttlMinutes h ev) p,
           fetched'))"
  unfolding weekEndpoint_uncached
  using assms by (simp add: weekEndpoint_def Let_def split: prod.splits sum.splits)

lemma standingsEndpoint_hit:
  assumes "cacheLookup (POOL_KV ev) standingsCacheKey (nowAtCheck clk) = Some p"
  shows "standingsEndpoint h up clk ev cfg fetched = (Inr (Served p False), POOL_KV ev, fetched)"
  using assms by (simp add: standingsEndpoint_def)

lemma standingsEndpoint_uncached:
  "standingsEndpoint h up clk (uncached ev) cfg fetched =
     (case computeTeamWinsForSeason up
             (case season cfg of None \<Rightarrow> 2025 | Some y \<Rightarrow> if y = 0 then 2025 else y) fetched of
        (Inl e, fetched') \<Rightarrow> (Inl e, None, fetched')
      | (Inr winsByAbbr, fetched') \<Rightarrow>
          (case buildResponse h cfg winsByAbbr of
             Inl e \<Rightarrow> (Inl e, None, fetched')
           | Inr payloadCore \<Rightarrow>
               (Inr (Served (StandingsPayload
                       \<lparr> sp_season = season cfg, sp_generated_at_ct = generatedAt clk,
                         sp_cache_ttl_minutes = ttlMinutes h ev, sp_core = payloadCore \<rparr>) True),
                None, fetched')))"
  by (simp add: standingsEndpoint_def Let_def cacheLookup_def cacheStore_def uncached_def
      ttlMinutes_def split: prod.splits sum.splits)

lemma standingsEndpoint_miss:
  assumes "cacheLookup (POOL_KV ev) standingsCacheKey (nowAtCheck clk) = None"
  shows "standingsEndpoint h up clk ev cfg fetched =
     (case standingsEndpoint h up clk (uncached ev) cfg fetched of
        (Inl e, kv, fetched') \<Rightarrow> (Inl e, POOL_KV ev, fetched')
      | (Inr NotFound, kv, fetched') \<Rightarrow> (Inr NotFound, POOL_KV ev, fetched')
      | (Inr MissingConfigUrl, kv, fetched') \<Rightarrow> (Inr MissingConfigUrl, POOL_KV ev, fetched')
      | (Inr (Served p b), kv, fetched') \<Rightarrow>
          (Inr (Served p True),
           cacheStore (POOL_KV ev) standingsCacheKey (nowAtPut clk) (ttlMinutes h ev) p,
           fetched'))"
  unfolding standingsEndpoint_uncached
  using assms by (simp add: standingsEndpoint_def Let_def split: prod.splits sum.splits)

lemma fetch_endpoint:
  assumes "pathname req = ''/api/week'' \<or> pathname req = ''/api/standings''"
      and "CONFIG_URL ev = Some u" and "u \<noteq> []" and "getConfig up u = Inr cfg"
  shows "fetch h up clk ev req fetched =
           (if pathname req = ''/api/week'' then weekEndpoint h up clk ev req cfg (fetched @ [u])
            else standingsEndpoint h up clk ev cfg (fetched @ [u]))"
  using assms by (auto simp: fetch_def fetchJson_def)

lemma fetch_endpoint_uncached:
  assumes "pathname req = ''/api/week'' \<or> pathname req = ''/api/standings''"
      and "CONFIG_URL ev = Some u" and "u \<noteq> []" and "getConfig up u = Inr cfg"
  shows "fetch h up clk (uncached ev) req fetched =
           (if pathname req = ''/api/week'' then weekEndpoint h up clk (uncached ev) req cfg (fetched @ [u])
            else standingsEndpoint h up clk (uncached ev) cfg (fetched @ [u]))"
  by (rule fetch_endpoint [OF assms(1) _ assms(3,4)]) (simp add: uncached_def assms(2))

lemma uncached_result:
  assumes "pathname req = ''/api/week'' \<or> pathname req = ''/api/standings''"
      and "CONFIG_URL ev = Some u" and "u \<noteq> []" and "getConfig up u = Inr cfg"
  shows "(\<exists>e f'. fetch h up clk (uncached ev) req fetched = (Inl e, None, f'))
       \<or> (\<exists>p f'. fetch h up clk (uncached ev) req fetched = (Inr (Served p True), None, f'))"
  unfolding fetch_endpoint_uncached [OF assms] weekEndpoint_uncached standingsEndpoint_uncached
  by (auto split: prod.splits sum.splits)

lemma fetch_hit:
  assumes "pathname req = ''/api/week'' \<or> pathname req = ''/api/standings''"
      and "CONFIG_URL ev = Some u" and "u \<noteq> []" and "getConfig up u = Inr cfg"
      and "POOL_KV ev = Some store"
      and "fresh (nowAtCheck clk) (store (requestKey req))"
  shows "\<exists>c. store (requestKey req) = Some c
           \<and> fetch h up clk ev req fetched = (Inr (Served (payload c) False), Some store, fetched @ [u])"
proof -
  obtain c where c: "store (requestKey req) = Some c"
    and look: "cacheLookup (Some store) (requestKey req) (nowAtCheck clk) = Some (payload c)"
    using cacheLookup_fresh [of "nowAtCheck clk" store "requestKey req"] assms(6) by blast
  show ?thesis
  proof (cases "pathname req = ''/api/week''")
    case True
    then have "cacheLookup (POOL_KV ev) (weekCacheKey (weekParam req)) (nowAtCheck clk) = Some (payload c)"
      using look assms(5) by (simp add: requestKey_def)
    then show ?thesis
      using c True assms(5) unfolding fetch_endpoint [OF assms(1-4)]
      by (simp add: weekEndpoint_hit)
  next
    case False
    then have "cacheLookup (POOL_KV ev) standingsCacheKey (nowAtCheck clk) = Some (payload c)"
      using look assms(5) by (simp add: requestKey_def)
    then show ?thesis
      using c False assms(5) unfolding fetch_endpoint [OF assms(1-4)]
      by (simp add: standingsEndpoint_hit)
  qed
qed

lemma fetch_miss:
  assumes "pathname req = ''/api/week'' \<or> pathname req = ''/api/standings''"
      and "CONFIG_URL ev = Some u" and "u \<noteq> []" and "getConfig up u = Inr cfg"
      and "POOL_KV ev = Some store"
      and "\<not> fresh (nowAtCheck clk) (store (requestKey req))"
  shows "fetch h up clk ev req fetched =
     (case fetch h up clk (uncached ev) req fetched of
        (Inl e, kv, fetched') \<Rightarrow> (Inl e, Some store, fetched')
      | (Inr NotFound, kv, fetched') \<Rightarrow> (Inr NotFound, Some store, fetched')
      | (Inr MissingConfigUrl, kv, fetched') \<Rightarrow> (Inr MissingConfigUrl, Some store, fetched')
      | (Inr (Served p b), kv, fetched') \<Rightarrow>
          (Inr (Served p True), Some (store(requestKey req \<mapsto> newEntry h ev clk p)), fetched'))"
proof -
  have look: "cacheLookup (Some store) (requestKey req) (nowAtCheck clk) = None"
    using cacheLookup_stale [of "nowAtCheck clk" store "requestKey req"] assms(6) by blast
  show ?thesis
  proof (cases "pathname req = ''/api/week''")
    case True
    then have "cacheLookup (POOL_KV ev) (weekCacheKey (weekParam req)) (nowAtCheck clk) = None"
      using look assms(5) by (simp add: requestKey_def)
    then show ?thesis
      unfolding fetch_endpoint [OF assms(1-4)] fetch_endpoint_uncached [OF assms(1-4)]
      using True assms(5)
      by (simp add: weekEndpoint_miss requestKey_def cacheStore_def newEntry_def
            split: prod.splits sum.splits response.splits)
  next
    case False
    then have "cacheLookup (POOL_KV ev) standingsCacheKey (nowAtCheck clk) = None"
      using look assms(5) by (simp add: requestKey_def)
    then show ?thesis
      unfolding fetch_endpoint [OF assms(1-4)] fetch_endpoint_uncached [OF assms(1-4)]
      using False assms(5)
      by (simp add: standingsEndpoint_miss requestKey_def cacheStore_def newEntry_def
            split: prod.splits sum.splits response.splits)
  qed
qed


lemma newEntry_fresh:
  assumes "fresh now (Some (newEntry h ev clk p))"
  shows "\<exists>m. ttlMinutes h ev = JNum m \<and> of_nat now < of_nat (nowAtPut clk) + m * 60 * 1000"
  using assms
  by (cases "ttlMinutes h ev") (auto simp: fresh_def newEntry_def jsonNumber_def expiry_def)




section \<open>Evaluating the handler on the samples\<close>

lemma sample_entries_from:
  "getRegularSeasonWeekEntries (sampleUpstream [sampleWeek1, sampleWeek2] src evs) fetched =
     (Inr \<lparr> regularEntries = [sampleWeek1, sampleWeek2], currentWeek = Some 1 \<rparr>,
      fetched @ [ESPN_SCOREBOARD])"
  by (simp add: getRegularSeasonWeekEntries_def sampleUpstream_def fetchJson_def calendarEntries_def
      regularEntry_def sampleWeek1_def sampleWeek2_def truthy_def isDigits_def)

lemma sample_grid_from:
  "fetchWeekGrid sampleHost (sampleUpstream [sampleWeek1, sampleWeek2] src evs) (Some ''1'') cfg fetched =
     (Inr \<lparr> week = JNum 1, grid_currentWeek = Some 1,
            games = arraySort (gamesCompare sampleHost) (weekGames (buildTeamToOwner cfg) evs),
            week_label = Some ''1'', grid_startDate = Some ''2025-09-04T07:00Z'',
            grid_endDate = Some ''2025-09-10T06:59Z'' \<rparr>,
      fetched @ [ESPN_SCOREBOARD, sampleWeek1Url])"
  unfolding fetchWeekGrid_window [OF sample_entries_from sample_found sample_week1_url sample_dates,
              where cfg = cfg]
  by (simp add: sampleWeek1_def requestedWeek_def sample_number)


lemma sample_config: "getConfig (sampleUpstream cal src evs) sampleConfigUrl = Inr src"
  by (simp add: sampleUpstream_def)

lemma sample_url: "sampleConfigUrl \<noteq> []"
  by (simp add: sampleConfigUrl_def)

lemma sample_week_uncached:
  assumes "CONFIG_URL ev = Some sampleConfigUrl" and "CACHE_TTL_MINUTES ev = None"
  shows "fetch sampleHost (sampleUpstream [sampleWeek1, sampleWeek2] sampleConfig evs) clk (uncached ev)
           weekRequest [] =
         (Inr (Served (WeekPayload
                 \<lparr> wp_season = Some 2025, wp_generated_at_ct = generatedAt clk,
                   wp_cache_ttl_minutes = JNum 30, wp_timezone = ''America/Chicago'',
                   wp_grid =
                     \<lparr> week = JNum 1, grid_currentWeek = Some 1,
                       games = arraySort (gamesCompare sampleHost)
                                 (weekGames (buildTeamToOwner sampleConfig) evs),
                       week_label = Some ''1'', grid_startDate = Some ''2025-09-04T07:00Z'',
                       grid_endDate = Some ''2025-09-10T06:59Z'' \<rparr> \<rparr>) True),
          None, [sampleConfigUrl, ESPN_SCOREBOARD, sampleWeek1Url])"
proof -
  have ep: "pathname weekRequest = ''/api/week'' \<or> pathname weekRequest = ''/api/standings''"
    by (simp add: weekRequest_def)
  have ttl: "ttlMinutes sampleHost ev = JNum 30"
    using assms(2) by (simp add: ttlMinutes_def DEFAULT_TTL_MIN_def)
  show ?thesis
    unfolding fetch_endpoint_uncached [OF ep assms(1) sample_url sample_config] weekEndpoint_uncached
    by (simp add: weekRequest_def sample_grid_from ttl sampleConfig_def)
qed


section \<open>What the win aggregator counts\<close>

lemma initialWins_lookup:
  "initialWins c = (if c \<in> snd ` set NAME_TO_ABBR then Some 0 else None)"
proof -
  have "map_of (map (\<lambda>a. (a, 0::nat)) xs) c = (if c \<in> set xs then Some 0 else None)" for xs
    by (induction xs) auto
  from this [of "map snd NAME_TO_ABBR"] show ?thesis
    unfolding initialWins_def by simp
qed

lemma countWinner_code:
  "countWinner m cpt =
     (case winnerCode cpt of None \<Rightarrow> m | Some a \<Rightarrow> m(a \<mapsto> winsOf m a + 1))"
  by (simp add: countWinner_def winnerCode_def winsOf_def truthy_def split: option.splits)

lemma winsOf_countWinner:
  "winsOf (countWinner m cpt) c = winsOf m c + (if winnerCode cpt = Some c then 1 else 0)"
  by (auto simp: countWinner_code winsOf_def split: option.splits)

lemma key_countWinner: "m c \<noteq> None \<Longrightarrow> countWinner m cpt c \<noteq> None"
  by (auto simp: countWinner_code split: option.splits)

lemma winsOf_competitions:
  "winsOf (foldl countWinner m cpts) c
     = winsOf m c + length (filter (\<lambda>cpt. winnerCode cpt = Some c) cpts)"
  by (induction cpts arbitrary: m) (simp_all add: winsOf_countWinner)

lemma key_competitions: "m c \<noteq> None \<Longrightarrow> foldl countWinner m cpts c \<noteq> None"
proof (induction cpts arbitrary: m)
  case Nil
  then show ?case by simp
next
  case (Cons cpt cpts)
  have "countWinner m cpt c \<noteq> None"
    using Cons.prems by (rule key_countWinner)
  then have "foldl countWinner (countWinner m cpt) cpts c \<noteq> None"
    by (rule Cons.IH)
  then show ?case by simp
qed

lemma countWeek_competitions:
  "countWeek m wd = foldl countWinner m (concat (map competitions (events wd)))"
proof -
  have "foldl countEvent m evs = foldl countWinner m (concat (map competitions evs))" for evs
    by (induction evs arbitrary: m) (simp_all add: countEvent_def)
  then show ?thesis by (simp add: countWeek_def)
qed

lemma countWeeks_competitions:
  "foldl countWeek m wds = foldl countWinner m (allCompetitions wds)"
  by (induction wds arbitrary: m) (simp_all add: allCompetitions_def countWeek_competitions)

text \<open>The week documents the season loop fetched, one per window.\<close>

lemma seasonLoop_weeks:
  assumes "seasonLoop up m es fetched = (Inr w, fetched')"
  shows "\<exists>wds. length wds = length es
           \<and> (\<forall>i<length es. \<exists>url. datesUrl (es ! i) = Inr url \<and> getDates up url = Inr (wds ! i))
           \<and> w = foldl countWeek m wds"
  using assms
proof (induction es arbitrary: m fetched)
  case Nil
  then show ?case by simp
next
  case (Cons e es)
  from Cons.prems obtain url where url: "datesUrl e = Inr url"
    by (cases "datesUrl e") auto
  from Cons.prems url obtain wd where wd: "getDates up url = Inr wd"
    by (cases "getDates up url") (auto simp: fetchJson_def)
  from Cons.prems url wd
  have "seasonLoop up (countWeek m wd) es (fetched @ [url]) = (Inr w, fetched')"
    by (simp add: fetchJson_def)
  from Cons.IH [OF this] obtain wds where wds: "length wds = length es"
    "\<forall>i<length es. \<exists>url. datesUrl (es ! i) = Inr url \<and> getDates up url = Inr (wds ! i)"
    "w = foldl countWeek (countWeek m wd) wds"
    by blast
  have "\<forall>i<length (e # es). \<exists>url. datesUrl ((e # es) ! i) = Inr url
            \<and> getDates up url = Inr ((wd # wds) ! i)"
  proof (intro allI impI)
    fix i assume "i < length (e # es)"
    then show "\<exists>url. datesUrl ((e # es) ! i) = Inr url \<and> getDates up url = Inr ((wd # wds) ! i)"
      using url wd wds(2) by (cases i) auto
  qed
  moreover have "length (wd # wds) = length (e # es)" using wds(1) by simp
  moreover have "w = foldl countWeek m (wd # wds)" using wds(3) by simp
  ultimately show ?case by blast
qed

lemma season_wins:
  assumes "computeTeamWinsForSeason up y fetched = (Inr w, fetched')"
  shows "\<exists>we wds. getRegularSeasonWeekEntries up fetched = (Inr we, fetched @ [ESPN_SCOREBOARD])
           \<and> length wds = length (regularEntries we)
           \<and> (\<forall>i<length wds. \<exists>url. datesUrl (regularEntries we ! i) = Inr url
                                  \<and> getDates up url = Inr (wds ! i))
           \<and> (\<forall>c. winsOf w c = length (filter (\<lambda>cpt. winnerCode cpt = Some c) (allCompetitions wds)))
           \<and> (\<forall>c\<in>snd ` set NAME_TO_ABBR. w c \<noteq> None)"
proof -
  obtain r f1 where e: "getRegularSeasonWeekEntries up fetched = (r, f1)"
    by (cases "getRegularSeasonWeekEntries up fetched") auto
  with assms obtain we where we: "r = Inr we"
    by (cases r) (auto simp: computeTeamWinsForSeason_def)
  have f1: "f1 = fetched @ [ESPN_SCOREBOARD]"
    using weekEntries_regular e we by blast
  have loop: "seasonLoop up initialWins (regularEntries we) f1 = (Inr w, fetched')"
    using assms e we by (simp add: computeTeamWinsForSeason_def)
  from seasonLoop_weeks [OF loop] obtain wds where wds: "length wds = length (regularEntries we)"
    "\<forall>i<length (regularEntries we). \<exists>url. datesUrl (regularEntries we ! i) = Inr url
          \<and> getDates up url = Inr (wds ! i)"
    "w = foldl countWeek initialWins wds"
    by blast
  have w: "w = foldl countWinner initialWins (allCompetitions wds)"
    using wds(3) by (simp add: countWeeks_competitions)
  have count: "winsOf w c = length (filter (\<lambda>cpt. winnerCode cpt = Some c) (allCompetitions wds))" for c
    unfolding w winsOf_competitions by (simp add: winsOf_def initialWins_lookup)
  have keys: "w c \<noteq> None" if "c \<in> snd ` set NAME_TO_ABBR" for c
    unfolding w using that by (intro key_competitions) (simp add: initialWins_lookup)
  from e we f1 wds(1,2) count keys show ?thesis by auto
qed

section \<open>Claims about the team-to-owner map\<close>

text \<open>
  C1 (as amended). A team other than \<open>"__proto__"\<close> that is listed in some owner's roster
  is mapped to an owner whose roster lists it, namely the last such entry of \<open>owners\<close>,
  whether or not the team is also in the unowned list; the unowned loop leaves the value
  the owners loop assigned; and the value differs from \<open>"Unowned"\<close> whenever no owner is
  itself named \<open>"Unowned"\<close>.
\<close>

theorem explicit_owner_wins:
  assumes "(ow, roster) \<in> set (ownerEntries cfg)" and "t \<in> set roster"
      and "t \<noteq> ''__proto__''"
  shows "buildTeamToOwner cfg t = Some (fst (last (listing (ownerEntries cfg) t)))
       \<and> last (listing (ownerEntries cfg) t) \<in> set (ownerEntries cfg)
       \<and> t \<in> set (snd (last (listing (ownerEntries cfg) t)))
       \<and> buildTeamToOwner cfg t = assignOwners Map.empty (ownerEntries cfg) t
       \<and> (''Unowned'' \<notin> fst ` set (ownerEntries cfg)
            \<longrightarrow> buildTeamToOwner cfg t \<noteq> Some ''Unowned'')"
proof -
  let ?os = "ownerEntries cfg"
  have ne: "listing ?os t \<noteq> []"
    using assms(1,2) by (force simp: listing_def filter_empty_conv)
  then have mem: "last (listing ?os t) \<in> set (listing ?os t)"
    by simp
  then have in_os: "last (listing ?os t) \<in> set ?os" and lists: "t \<in> set (snd (last (listing ?os t)))"
    by (simp_all add: listing_def)
  have val: "buildTeamToOwner cfg t = Some (fst (last (listing ?os t)))"
    using ne assms(3) by (simp add: buildTeamToOwner_lookup)
  have same: "buildTeamToOwner cfg t = assignOwners Map.empty ?os t"
    using ne val assms(3) by (simp add: assignOwners_lookup)
  have "fst (last (listing ?os t)) \<in> fst ` set ?os"
    using in_os by (rule imageI)
  then have "''Unowned'' \<notin> fst ` set ?os \<longrightarrow> buildTeamToOwner cfg t \<noteq> Some ''Unowned''"
    using val by force
  with val in_os lists same show ?thesis by simp
qed

text \<open>
  The Ravens are on Alice's and on Bob's roster and in the unowned list: they go to Bob,
  the later entry.
\<close>

theorem explicit_owner_wins_witness:
  "buildTeamToOwner
     \<lparr> season = None, timezone = None,
       owners = Some [(''Alice'', [''Ravens'']), (''Bob'', [''Ravens'', ''Bears''])],
       unowned = Some [''Ravens'', ''Lions''] \<rparr> ''Ravens'' = Some ''Bob''
   \<and> buildTeamToOwner
     \<lparr> season = None, timezone = None,
       owners = Some [(''Alice'', [''Ravens'']), (''Bob'', [''Ravens'', ''Bears''])],
       unowned = Some [''Ravens'', ''Lions''] \<rparr> ''Ravens'' \<noteq> Some ''Unowned''"
  using explicit_owner_wins [of "''Alice''" "[''Ravens'']" "\<lparr> season = None, timezone = None,
       owners = Some [(''Alice'', [''Ravens'']), (''Bob'', [''Ravens'', ''Bears''])],
       unowned = Some [''Ravens'', ''Lions''] \<rparr>" "''Ravens''"]
  by (simp add: listing_def ownerEntries_def)

text \<open>
  C1 as stated fails when an owner is named \<open>"Unowned"\<close>: the Bears are on that owner's
  roster and in the unowned list, and the map gives them the string \<open>"Unowned"\<close>. It
  also fails for a team named \<open>"__proto__"\<close>: on Alice's roster and in the unowned list,
  it gets no entry in the map, and reading it gives the prototype object, not Alice.
\<close>

theorem owner_named_unowned_counterexample:
  "buildTeamToOwner
     \<lparr> season = None, timezone = None,
       owners = Some [(''Unowned'', [''Bears''])],
       unowned = Some [''Bears''] \<rparr> ''Bears'' = Some ''Unowned''
   \<and> buildTeamToOwner
     \<lparr> season = None, timezone = None,
       owners = Some [(''Alice'', [''__proto__''])],
       unowned = Some [''__proto__''] \<rparr> ''__proto__'' = None
   \<and> ownerOf (buildTeamToOwner
     \<lparr> season = None, timezone = None,
       owners = Some [(''Alice'', [''__proto__''])],
       unowned = Some [''__proto__''] \<rparr>) ''__proto__'' = Inherited ''__proto__''"
  by (simp add: buildTeamToOwner_def ownerEntries_def unownedList_def propertySet_def
      hasProperty_def ownerOf_def objectPrototypeNames_def)

section \<open>Claims about the week grid\<close>



text \<open>
  C3 (as amended). When the host's \<open>localeCompare\<close> is a consistent comparator and every
  kickoff string in the grid is one \<open>Date.parse\<close> reads, the rows are sorted by kickoff
  timestamp in non-decreasing order, a row without a kickoff counting as timestamp zero;
  rows with equal timestamps are ordered by away-team name and then by home-team name
  under \<open>localeCompare\<close>. A row without a kickoff therefore stands before every row whose
  timestamp is positive.
\<close>

theorem grid_sorted_by_kickoff:
  assumes res: "fetchWeekGrid h up wp cfg fetched = (Inr g, fetched')"
      and c: "consistentCompare (localeCompare h)"
      and p: "\<forall>r\<in>set (games g). kickoffMs h r \<noteq> None"
  shows "sorted_wrt (inGridOrder h) (games g)
       \<and> (\<forall>i j. i < length (games g) \<and> j < length (games g)
                  \<and> kickoff_utc (games g ! i) = None
                  \<and> (\<exists>t. kickoffMs h (games g ! j) = Some t \<and> 0 < t)
                \<longrightarrow> i < j)"
proof -
  have srt: "sorted_wrt (inGridOrder h) (games g)"
  proof (cases "games g = []")
    case True
    then show ?thesis by simp
  next
    case False
    then obtain wd :: weekData
      where g: "games g = arraySort (gamesCompare h) (weekGames (buildTeamToOwner cfg) (events wd))"
      using fetchWeekGrid_games [OF res] by blast
    have "\<forall>r\<in>set (weekGames (buildTeamToOwner cfg) (events wd)). kickoffMs h r \<noteq> None"
      using p unfolding g by (simp add: set_arraySort)
    then show ?thesis
      unfolding g by (rule sorted_games [OF c])
  qed
  have nth: "inGridOrder h (games g ! j) (games g ! i)" if "j < i" "i < length (games g)" for i j
    using srt that by (simp add: sorted_wrt_iff_nth_less)
  have first: "i < j"
    if "i < length (games g)" "j < length (games g)" "kickoff_utc (games g ! i) = None"
       "kickoffMs h (games g ! j) = Some t" "0 < t" for i j t
  proof (rule ccontr)
    assume "\<not> i < j"
    then have cases: "j = i \<or> j < i" by auto
    have zero: "kickoffMs h (games g ! i) = Some 0"
      using that(3) by (simp add: kickoffMs_def)
    from cases show False
    proof
      assume "j = i"
      with zero that(4,5) show False by simp
    next
      assume "j < i"
      then have "inGridOrder h (games g ! j) (games g ! i)" using that(1) by (rule nth)
      with zero that(4,5) show False by (simp add: inGridOrder_def)
    qed
  qed
  from srt first show ?thesis by blast
qed

text \<open>
  The sample week: the game without a kickoff comes first, then the games by time, and
  the two games of the same hour by away-team name.
\<close>

theorem grid_sorted_by_kickoff_witness:
  "consistentCompare (localeCompare sampleHost)
   \<and> (\<exists>g. fetchWeekGrid sampleHost (sampleUpstream [sampleWeek1, sampleWeek2] sampleConfig sampleEvents)
            (Some ''1'') sampleConfig [] = (Inr g, [ESPN_SCOREBOARD, sampleWeek1Url])
        \<and> map kickoff_utc (games g) =
            [None, Some ''2025-09-05T00:20Z'', Some ''2025-09-07T17:00Z'', Some ''2025-09-07T17:00Z'']
        \<and> map away (games g) = [''Bears'', ''Cowboys'', ''Jets'', ''Ravens'']
        \<and> sorted_wrt (inGridOrder sampleHost) (games g))"
proof -
  let ?g = "\<lparr> week = JNum 1, grid_currentWeek = Some 1,
            games = arraySort (gamesCompare sampleHost) (weekGames (buildTeamToOwner sampleConfig) sampleEvents),
            week_label = Some ''1'', grid_startDate = Some ''2025-09-04T07:00Z'',
            grid_endDate = Some ''2025-09-10T06:59Z'' \<rparr>"
  note res = sample_grid [where src = sampleConfig and evs = sampleEvents and cfg = sampleConfig]
  have parsed: "\<forall>r\<in>set (games ?g). kickoffMs sampleHost r \<noteq> None"
    by (simp only: grid.select_convs sample_games) (simp add: kickoffMs_def sampleHost_def)
  have srt: "sorted_wrt (inGridOrder sampleHost) (games ?g)"
    using grid_sorted_by_kickoff [OF res consistent_sampleHost parsed] by blast
  show ?thesis
  proof (intro conjI exI)
    show "consistentCompare (localeCompare sampleHost)" by (rule consistent_sampleHost)
    show "fetchWeekGrid sampleHost (sampleUpstream [sampleWeek1, sampleWeek2] sampleConfig sampleEvents)
            (Some ''1'') sampleConfig [] = (Inr ?g, [ESPN_SCOREBOARD, sampleWeek1Url])"
      by (rule res)
    show "map kickoff_utc (games ?g) =
            [None, Some ''2025-09-05T00:20Z'', Some ''2025-09-07T17:00Z'', Some ''2025-09-07T17:00Z'']"
      by (simp only: grid.select_convs sample_games) simp
    show "map away (games ?g) = [''Bears'', ''Cowboys'', ''Jets'', ''Ravens'']"
      by (simp only: grid.select_convs sample_games) simp
    show "sorted_wrt (inGridOrder sampleHost) (games ?g)" by (rule srt)
  qed
qed

text \<open>
  C3 as stated fails in two ways. First, when a kickoff string is not a date:
  \<open>Date.parse\<close> gives \<open>NaN\<close>, the comparator falls through to the names and is no
  longer consistent. In the undated week the three rows arrive with their away names
  ascending; each adjacent pair involves the undated row and is in comparator order, so
  the list stays as it is (insertion sorts and run-detecting merge sorts such as V8's
  leave it so), and the game of 7 September stands before the game of 5 September.
  Second, a timestamp of zero is not the least one: a game that kicked off before 1970 has
  a negative timestamp and stands before the row without a kickoff.
\<close>

theorem unparseable_kickoff_counterexample:
  "(\<exists>g. fetchWeekGrid sampleHost (sampleUpstream [sampleWeek1, sampleWeek2] sampleConfig undatedEvents)
          (Some ''1'') sampleConfig [] = (Inr g, [ESPN_SCOREBOARD, sampleWeek1Url])
      \<and> map kickoff_utc (games g) =
          [Some ''2025-09-07T17:00Z'', Some ''TBD'', Some ''2025-09-05T00:20Z'']
      \<and> kickoffMs sampleHost (games g ! 0) = Some 1757264400000
      \<and> kickoffMs sampleHost (games g ! 2) = Some 1757031600000
      \<and> \<not> sorted_wrt (inGridOrder sampleHost) (games g))
   \<and> (\<exists>g. fetchWeekGrid sampleHost (sampleUpstream [sampleWeek1, sampleWeek2] sampleConfig preEpochEvents)
          (Some ''1'') sampleConfig [] = (Inr g, [ESPN_SCOREBOARD, sampleWeek1Url])
      \<and> map kickoff_utc (games g) = [Some ''1969-12-31T23:59:59.999Z'', None]
      \<and> kickoffMs sampleHost (games g ! 0) = Some (- 1)
      \<and> kickoffMs sampleHost (games g ! 1) = Some 0)"
proof (rule conjI)
  let ?g = "\<lparr> week = JNum 1, grid_currentWeek = Some 1,
            games = arraySort (gamesCompare sampleHost) (weekGames (buildTeamToOwner sampleConfig) undatedEvents),
            week_label = Some ''1'', grid_startDate = Some ''2025-09-04T07:00Z'',
            grid_endDate = Some ''2025-09-10T06:59Z'' \<rparr>"
  note res = sample_grid [where src = sampleConfig and evs = undatedEvents and cfg = sampleConfig]
  show "\<exists>g. fetchWeekGrid sampleHost (sampleUpstream [sampleWeek1, sampleWeek2] sampleConfig undatedEvents)
          (Some ''1'') sampleConfig [] = (Inr g, [ESPN_SCOREBOARD, sampleWeek1Url])
      \<and> map kickoff_utc (games g) =
          [Some ''2025-09-07T17:00Z'', Some ''TBD'', Some ''2025-09-05T00:20Z'']
      \<and> kickoffMs sampleHost (games g ! 0) = Some 1757264400000
      \<and> kickoffMs sampleHost (games g ! 2) = Some 1757031600000
      \<and> \<not> sorted_wrt (inGridOrder sampleHost) (games g)"
  proof (intro conjI exI)
    show "fetchWeekGrid sampleHost (sampleUpstream [sampleWeek1, sampleWeek2] sampleConfig undatedEvents)
            (Some ''1'') sampleConfig [] = (Inr ?g, [ESPN_SCOREBOARD, sampleWeek1Url])"
      by (rule res)
    show "map kickoff_utc (games ?g) =
            [Some ''2025-09-07T17:00Z'', Some ''TBD'', Some ''2025-09-05T00:20Z'']"
      by (simp only: grid.select_convs undated_games) simp
    show "kickoffMs sampleHost (games ?g ! 0) = Some 1757264400000"
      by (simp only: grid.select_convs undated_games) (simp add: kickoffMs_def sampleHost_def)
    show "kickoffMs sampleHost (games ?g ! 2) = Some 1757031600000"
      by (simp only: grid.select_convs undated_games) (simp add: kickoffMs_def sampleHost_def)
    show "\<not> sorted_wrt (inGridOrder sampleHost) (games ?g)"
      by (simp only: grid.select_convs undated_games) (simp add: inGridOrder_def kickoffMs_def sampleHost_def)
  qed
next
  let ?g = "\<lparr> week = JNum 1, grid_currentWeek = Some 1,
            games = arraySort (gamesCompare sampleHost) (weekGames (buildTeamToOwner sampleConfig) preEpochEvents),
            week_label = Some ''1'', grid_startDate = Some ''2025-09-04T07:00Z'',
            grid_endDate = Some ''2025-09-10T06:59Z'' \<rparr>"
  note res = sample_grid [where src = sampleConfig and evs = preEpochEvents and cfg = sampleConfig]
  show "\<exists>g. fetchWeekGrid sampleHost (sampleUpstream [sampleWeek1, sampleWeek2] sampleConfig preEpochEvents)
          (Some ''1'') sampleConfig [] = (Inr g, [ESPN_SCOREBOARD, sampleWeek1Url])
      \<and> map kickoff_utc (games g) = [Some ''1969-12-31T23:59:59.999Z'', None]
      \<and> kickoffMs sampleHost (games g ! 0) = Some (- 1)
      \<and> kickoffMs sampleHost (games g ! 1) = Some 0"
  proof (intro conjI exI)
    show "fetchWeekGrid sampleHost (sampleUpstream [sampleWeek1, sampleWeek2] sampleConfig preEpochEvents)
            (Some ''1'') sampleConfig [] = (Inr ?g, [ESPN_SCOREBOARD, sampleWeek1Url])"
      by (rule res)
    show "map kickoff_utc (games ?g) = [Some ''1969-12-31T23:59:59.999Z'', None]"
      by (simp only: grid.select_convs preepoch_games) simp
    show "kickoffMs sampleHost (games ?g ! 0) = Some (- 1)"
      by (simp only: grid.select_convs preepoch_games) (simp add: kickoffMs_def sampleHost_def)
    show "kickoffMs sampleHost (games ?g ! 1) = Some 0"
      by (simp only: grid.select_convs preepoch_games) (simp add: kickoffMs_def sampleHost_def)
  qed
qed

section \<open>Claims about the standings\<close>

text \<open>
  C4. When the configuration has an \<open>owners\<close> object and the host's \<open>localeCompare\<close> is a
  consistent comparator, \<open>buildResponse\<close> returns the owner rows of the configuration,
  each once, sorted by total wins descending and, among equal totals, by owner name under
  \<open>localeCompare\<close>: an owner with more wins stands before one with fewer, and of two owners
  with equal wins the one whose name compares lower stands first.
\<close>

theorem standings_sorted:
  assumes "owners cfg = Some os" and "consistentCompare (localeCompare h)"
  shows "\<exists>core. buildResponse h cfg winsByAbbr = Inr core
           \<and> mset (standings core) = mset (map (ownerRowOf winsByAbbr) os)
           \<and> sorted_wrt (standingsOrder h) (standings core)
           \<and> (\<forall>i j. i < length (standings core) \<and> j < length (standings core)
                      \<and> total_wins (standings core ! j) < total_wins (standings core ! i)
                    \<longrightarrow> i < j)
           \<and> (\<forall>i j. i < length (standings core) \<and> j < length (standings core)
                      \<and> total_wins (standings core ! i) = total_wins (standings core ! j)
                      \<and> localeCompare h (owner (standings core ! i)) (owner (standings core ! j)) < 0
                    \<longrightarrow> i < j)"
proof -
  let ?rows = "arraySort (standingsCompare h) (map (ownerRowOf winsByAbbr) os)"
  let ?core = "\<lparr> standings = ?rows,
                  core_unowned = map (teamRowOf winsByAbbr) (unownedList cfg) \<rparr>"
  have res: "buildResponse h cfg winsByAbbr = Inr ?core"
    using assms(1) by (simp add: buildResponse_def)
  have perm: "mset ?rows = mset (map (ownerRowOf winsByAbbr) os)"
    by (rule mset_arraySort)
  have srt: "sorted_wrt (standingsOrder h) ?rows"
    by (rule sorted_standings [OF assms(2)])
  have nth: "standingsOrder h (?rows ! j) (?rows ! i)" if "j < i" "i < length ?rows" for i j
    using srt that by (simp add: sorted_wrt_iff_nth_less)
  have more: "i < j"
    if "i < length ?rows" "j < length ?rows" "total_wins (?rows ! j) < total_wins (?rows ! i)" for i j
  proof (rule ccontr)
    assume "\<not> i < j"
    then have "j = i \<or> j < i" by auto
    then show False
    proof
      assume "j = i" with that(3) show False by simp
    next
      assume "j < i"
      then have "standingsOrder h (?rows ! j) (?rows ! i)" using that(1) by (rule nth)
      with that(3) show False by (simp add: standingsOrder_def)
    qed
  qed
  have tie: "i < j"
    if "i < length ?rows" "j < length ?rows" "total_wins (?rows ! i) = total_wins (?rows ! j)"
       "localeCompare h (owner (?rows ! i)) (owner (?rows ! j)) < 0" for i j
  proof (rule ccontr)
    assume "\<not> i < j"
    then have "j = i \<or> j < i" by auto
    then show False
    proof
      assume "j = i"
      with that(4) consistent_flip [OF assms(2), of "owner (?rows ! i)" "owner (?rows ! i)"]
      show False by simp
    next
      assume "j < i"
      then have "standingsOrder h (?rows ! j) (?rows ! i)" using that(1) by (rule nth)
      then have "localeCompare h (owner (?rows ! j)) (owner (?rows ! i)) \<le> 0"
        using that(3) by (simp add: standingsOrder_def)
      with that(4) consistent_flip [OF assms(2), of "owner (?rows ! i)" "owner (?rows ! j)"]
      show False by simp
    qed
  qed
  show ?thesis
  proof (intro exI conjI)
    show "buildResponse h cfg winsByAbbr = Inr ?core" by (rule res)
    show "mset (standings ?core) = mset (map (ownerRowOf winsByAbbr) os)" using perm by simp
    show "sorted_wrt (standingsOrder h) (standings ?core)" using srt by simp
    show "\<forall>i j. i < length (standings ?core) \<and> j < length (standings ?core)
                      \<and> total_wins (standings ?core ! j) < total_wins (standings ?core ! i)
                    \<longrightarrow> i < j"
      using more by simp
    show "\<forall>i j. i < length (standings ?core) \<and> j < length (standings ?core)
                      \<and> total_wins (standings ?core ! i) = total_wins (standings ?core ! j)
                      \<and> localeCompare h (owner (standings ?core ! i)) (owner (standings ?core ! j)) < 0
                    \<longrightarrow> i < j"
      using tie by simp
  qed
qed

text \<open>
  Alice has 1 win and Bob 5: Bob's row comes first although Alice is first in the
  configuration.
\<close>

theorem standings_sorted_witness:
  "consistentCompare (localeCompare sampleHost)
   \<and> (\<exists>core. buildResponse sampleHost sampleConfig sampleWins = Inr core
         \<and> map owner (standings core) = [''Bob'', ''Alice'']
         \<and> sorted_wrt (standingsOrder sampleHost) (standings core))"
proof -
  have "owners sampleConfig = Some [(''Alice'', [''Ravens'', ''Chiefs'']), (''Bob'', [''Bills'', ''Cowboys''])]"
    by (simp add: sampleConfig_def)
  from standings_sorted [OF this consistent_sampleHost, of sampleWins]
  obtain core where core: "buildResponse sampleHost sampleConfig sampleWins = Inr core"
    and srt: "sorted_wrt (standingsOrder sampleHost) (standings core)"
    by blast
  from core have names: "map owner (standings core) = [''Bob'', ''Alice'']"
    unfolding sample_standings by auto
  show ?thesis
  proof (intro conjI exI)
    show "consistentCompare (localeCompare sampleHost)" by (rule consistent_sampleHost)
    show "buildResponse sampleHost sampleConfig sampleWins = Inr core" by (rule core)
    show "map owner (standings core) = [''Bob'', ''Alice'']" by (rule names)
    show "sorted_wrt (standingsOrder sampleHost) (standings core)" by (rule srt)
  qed
qed

section \<open>Claims about the win aggregator\<close>

text \<open>
  What the code does holds in general (\<open>season_wins\<close> above): the table starts with
  every code of the static table at zero and keeps those keys, and a code's count is the
  number of fetched competitions whose first flagged winner carries that code as its
  \<open>abbreviation\<close>. A winner without an abbreviation is counted under no code.

  C5, at an input where the code departs from it. The Ravens win a finished game of week 1
  and the provider sends their team without the \<open>abbreviation\<close> field. The claim, like
  the comment on \<open>NAME_TO_ABBR\<close> (a fallback for the provider's abbreviation), has the win
  counted under \<open>BAL\<close>, the code of the static table; \<open>computeTeamWinsForSeason\<close> skips
  the win under its guard \<open>if (abbr)\<close> and returns \<open>BAL\<close> at zero.
\<close>

theorem missing_abbreviation_win_not_counted:
  "\<exists>w. computeTeamWinsForSeason
          (sampleUpstream [sampleWeek1, sampleWeek2] sampleConfig [unabbreviatedWin]) 2025 [] =
          (Inr w, [ESPN_SCOREBOARD, sampleWeek1Url, sampleWeek2Url])
      \<and> w ''BAL'' = Some 0
      \<and> map_of NAME_TO_ABBR ''Ravens'' = Some ''BAL''"
proof (intro exI conjI)
  show "computeTeamWinsForSeason
          (sampleUpstream [sampleWeek1, sampleWeek2] sampleConfig [unabbreviatedWin]) 2025 [] =
          (Inr (countWeek (countWeek initialWins \<lparr> events = [unabbreviatedWin] \<rparr>) \<lparr> events = [] \<rparr>),
           [ESPN_SCOREBOARD, sampleWeek1Url, sampleWeek2Url])"
    by (rule sample_season)
  show "countWeek (countWeek initialWins \<lparr> events = [unabbreviatedWin] \<rparr>) \<lparr> events = [] \<rparr> ''BAL'' = Some 0"
    by (rule unabbreviated_count)
  show "map_of NAME_TO_ABBR ''Ravens'' = Some ''BAL''"
    by code_simp
qed

section \<open>Claims about the cache\<close>

text \<open>
  C6. For a request to the week or the standings endpoint, with the configuration loaded
  and a store bound to \<open>POOL_KV\<close>: a payload is served from the cache only when the store
  has an entry under the request's key and the time of the check is strictly before its
  \<open>expires_at_ms\<close>; an entry that passes the check is served as it is, with no further
  fetch and no change of the store. Otherwise, whether the entry is absent or expired, the
  request is handled as it is without a store: the payload is recomputed, and when that
  succeeds the entry under the key is overwritten with the new payload and expiry; when it
  fails the store is left as it was. No request removes an entry or touches another key.
\<close>

theorem cache_served_only_when_fresh:
  assumes ep: "pathname req = ''/api/week'' \<or> pathname req = ''/api/standings''"
      and url: "CONFIG_URL ev = Some u" "u \<noteq> []"
      and cfg: "getConfig up u = Inr cfg"
      and kv: "POOL_KV ev = Some store"
  shows "(\<forall>p. fst (fetch h up clk ev req fetched) = Inr (Served p False) \<longrightarrow>
            (\<exists>c x. store (requestKey req) = Some c \<and> payload c = p
                 \<and> expires_at_ms c = Some x \<and> of_nat (nowAtCheck clk) < x))
       \<and> (fresh (nowAtCheck clk) (store (requestKey req)) \<longrightarrow>
            (\<exists>c. store (requestKey req) = Some c
               \<and> fetch h up clk ev req fetched
                   = (Inr (Served (payload c) False), Some store, fetched @ [u])))
       \<and> (\<not> fresh (nowAtCheck clk) (store (requestKey req)) \<longrightarrow>
            (\<forall>p b kv' f'. fetch h up clk (uncached ev) req fetched = (Inr (Served p b), kv', f') \<longrightarrow>
               fetch h up clk ev req fetched
                 = (Inr (Served p True), Some (store(requestKey req \<mapsto> newEntry h ev clk p)), f'))
          \<and> (\<forall>e kv' f'. fetch h up clk (uncached ev) req fetched = (Inl e, kv', f') \<longrightarrow>
               fetch h up clk ev req fetched = (Inl e, Some store, f')))
       \<and> ((\<exists>e f'. fetch h up clk (uncached ev) req fetched = (Inl e, None, f'))
          \<or> (\<exists>p f'. fetch h up clk (uncached ev) req fetched = (Inr (Served p True), None, f')))
       \<and> (\<exists>store'. fst (snd (fetch h up clk ev req fetched)) = Some store'
             \<and> (\<forall>k. k \<noteq> requestKey req \<longrightarrow> store' k = store k)
             \<and> (store (requestKey req) \<noteq> None \<longrightarrow> store' (requestKey req) \<noteq> None))"
proof -
  let ?k = "requestKey req"
  let ?now = "nowAtCheck clk"
  let ?r = "fetch h up clk ev req fetched"
  let ?u = "fetch h up clk (uncached ev) req fetched"
  note hit = fetch_hit [OF ep url cfg kv, of clk h fetched]
  note miss = fetch_miss [OF ep url cfg kv, of clk h fetched]
  note unc = uncached_result [OF ep url cfg, of h clk fetched]
  have served: "\<exists>c x. store ?k = Some c \<and> payload c = p \<and> expires_at_ms c = Some x \<and> of_nat ?now < x"
    if "fst ?r = Inr (Served p False)" for p
  proof (cases "fresh ?now (store ?k)")
    case True
    then obtain c where c: "store ?k = Some c" and r: "?r = (Inr (Served (payload c) False), Some store, fetched @ [u])"
      using hit by blast
    from r that have "payload c = p" by simp
    moreover obtain x where "expires_at_ms c = Some x" "of_nat ?now < x"
      using True c by (auto simp: fresh_def split: option.splits)
    ultimately show ?thesis using c by blast
  next
    case False
    with miss that unc show ?thesis
      by (auto split: prod.splits sum.splits response.splits)
  qed
  have missS: "?r = (Inr (Served p True), Some (store(?k \<mapsto> newEntry h ev clk p)), f')"
    if "\<not> fresh ?now (store ?k)" "?u = (Inr (Served p b), kv', f')" for p b kv' f'
    using miss that by simp
  have missE: "?r = (Inl e, Some store, f')"
    if "\<not> fresh ?now (store ?k)" "?u = (Inl e, kv', f')" for e kv' f'
    using miss that by simp
  have frame: "\<exists>store'. fst (snd ?r) = Some store'
             \<and> (\<forall>k. k \<noteq> ?k \<longrightarrow> store' k = store k)
             \<and> (store ?k \<noteq> None \<longrightarrow> store' ?k \<noteq> None)"
  proof (cases "fresh ?now (store ?k)")
    case True
    then obtain c :: cacheEntry
      where "?r = (Inr (Served (payload c) False), Some store, fetched @ [u])"
      using hit by blast
    then show ?thesis by simp
  next
    case False
    from unc show ?thesis
    proof (elim disjE exE)
      fix e f' assume "?u = (Inl e, None, f')"
      then have "?r = (Inl e, Some store, f')" using missE False by blast
      then show ?thesis by simp
    next
      fix p f' assume "?u = (Inr (Served p True), None, f')"
      then have "?r = (Inr (Served p True), Some (store(?k \<mapsto> newEntry h ev clk p)), f')"
        using missS False by blast
      then show ?thesis by simp
    qed
  qed
  from served hit missS missE unc frame show ?thesis
    by blast
qed

text \<open>
  The week-1 entry of the sample store expired at 4000 ms and the check is made at 5000 ms:
  the grid is recomputed from the provider and the entry is overwritten, expiring 30
  minutes after the store at 6000 ms.
\<close>

theorem cache_served_only_when_fresh_witness:
  "\<not> fresh (nowAtCheck sampleClock) (staleStore (requestKey weekRequest))
   \<and> staleStore (requestKey weekRequest) \<noteq> None
   \<and> (\<exists>p. fetch sampleHost (sampleUpstream [sampleWeek1, sampleWeek2] sampleConfig sampleEvents)
             sampleClock staleEnv weekRequest [] =
            (Inr (Served p True),
             Some (staleStore(''week_cache_v1_1'' \<mapsto> \<lparr> expires_at_ms = Some 1806000, payload = p \<rparr>)),
             [sampleConfigUrl, ESPN_SCOREBOARD, sampleWeek1Url])
         \<and> p \<noteq> stalePayload)"
proof -
  let ?up = "sampleUpstream [sampleWeek1, sampleWeek2] sampleConfig sampleEvents"
  let ?p = "WeekPayload
                 \<lparr> wp_season = Some 2025, wp_generated_at_ct = generatedAt sampleClock,
                   wp_cache_ttl_minutes = JNum 30, wp_timezone = ''America/Chicago'',
                   wp_grid =
                     \<lparr> week = JNum 1, grid_currentWeek = Some 1,
                       games = arraySort (gamesCompare sampleHost)
                                 (weekGames (buildTeamToOwner sampleConfig) sampleEvents),
                       week_label = Some ''1'', grid_startDate = Some ''2025-09-04T07:00Z'',
                       grid_endDate = Some ''2025-09-10T06:59Z'' \<rparr> \<rparr>"
  have ep: "pathname weekRequest = ''/api/week'' \<or> pathname weekRequest = ''/api/standings''"
    by (simp add: weekRequest_def)
  have url: "CONFIG_URL staleEnv = Some sampleConfigUrl" and ttl: "CACHE_TTL_MINUTES staleEnv = None"
    and kv: "POOL_KV staleEnv = Some staleStore"
    by (simp_all add: staleEnv_def)
  have key: "requestKey weekRequest = ''week_cache_v1_1''"
    by (simp add: requestKey_def weekRequest_def weekCacheKey_def)
  have stale: "\<not> fresh (nowAtCheck sampleClock) (staleStore (requestKey weekRequest))"
    by (simp add: key staleStore_def fresh_def sampleClock_def)
  have present: "staleStore (requestKey weekRequest) \<noteq> None"
    by (simp add: key staleStore_def)
  have unc: "fetch sampleHost ?up sampleClock (uncached staleEnv) weekRequest [] =
               (Inr (Served ?p True), None, [sampleConfigUrl, ESPN_SCOREBOARD, sampleWeek1Url])"
    by (rule sample_week_uncached [OF url ttl])
  have entry: "newEntry sampleHost staleEnv sampleClock ?p = \<lparr> expires_at_ms = Some 1806000, payload = ?p \<rparr>"
    by (simp add: newEntry_def ttlMinutes_def ttl DEFAULT_TTL_MIN_def expiry_def jsonNumber_def
        sampleClock_def)
  from cache_served_only_when_fresh [OF ep url sample_url sample_config kv,
         where h = sampleHost and clk = sampleClock and fetched = "[]"] stale unc
  have "fetch sampleHost ?up sampleClock staleEnv weekRequest [] =
          (Inr (Served ?p True),
           Some (staleStore(requestKey weekRequest \<mapsto> newEntry sampleHost staleEnv sampleClock ?p)),
           [sampleConfigUrl, ESPN_SCOREBOARD, sampleWeek1Url])"
    by blast
  then have res: "fetch sampleHost ?up sampleClock staleEnv weekRequest [] =
          (Inr (Served ?p True),
           Some (staleStore(''week_cache_v1_1'' \<mapsto> \<lparr> expires_at_ms = Some 1806000, payload = ?p \<rparr>)),
           [sampleConfigUrl, ESPN_SCOREBOARD, sampleWeek1Url])"
    by (simp only: key entry)
  have diff: "?p \<noteq> stalePayload"
    by (simp add: stalePayload_def sampleClock_def)
  from stale present res diff show ?thesis by blast
qed



section \<open>Claims about the week resolver\<close>

text \<open>
  C8 (as amended). The week-entry list returned by \<open>getRegularSeasonWeekEntries\<close> has at
  most 18 entries; it is the first 18 entries of the calendar that pass the filter, and
  each of them has a label that is a non-empty string of decimal digits (which admits
  \<open>"0"\<close> and leading zeros), a non-empty start date and a non-empty end date.
\<close>

theorem regular_entries_filtered:
  assumes "getRegularSeasonWeekEntries up fetched = (Inr we, fetched')"
  shows "length (regularEntries we) \<le> 18
       \<and> (\<forall>e\<in>set (regularEntries we).
             (\<exists>l. label e = Some l \<and> l \<noteq> [] \<and> (\<forall>c\<in>set l. c \<in> set ''0123456789''))
           \<and> (\<exists>s. startDate e = Some s \<and> s \<noteq> [])
           \<and> (\<exists>s. endDate e = Some s \<and> s \<noteq> []))
       \<and> (\<exists>sb cal. getScoreboard up = Inr sb \<and> calendarEntries sb = Inr cal
             \<and> regularEntries we = take 18 (filter regularEntry cal)
             \<and> set (regularEntries we) \<subseteq> set cal)"
proof -
  obtain sb cal where sb: "getScoreboard up = Inr sb" and cal: "calendarEntries sb = Inr cal"
    and re: "regularEntries we = take 18 (filter regularEntry cal)"
    using weekEntries_regular [OF assms] by blast
  have len: "length (regularEntries we) \<le> 18"
    by (simp add: re)
  have sub: "set (regularEntries we) \<subseteq> set (filter regularEntry cal)"
    unfolding re by (rule set_take_subset)
  then have reg: "\<forall>e\<in>set (regularEntries we). regularEntry e"
    by auto
  have fields: "\<forall>e\<in>set (regularEntries we).
             (\<exists>l. label e = Some l \<and> l \<noteq> [] \<and> (\<forall>c\<in>set l. c \<in> set ''0123456789''))
           \<and> (\<exists>s. startDate e = Some s \<and> s \<noteq> [])
           \<and> (\<exists>s. endDate e = Some s \<and> s \<noteq> [])"
    using reg regularEntry_fields by blast
  have "set (regularEntries we) \<subseteq> set cal"
    using sub by auto
  with sb cal re len fields show ?thesis by blast
qed

text \<open>
  A calendar with a named preseason entry, an entry without an end date and twenty
  regular entries: the first eighteen regular entries are kept.
\<close>

theorem regular_entries_filtered_witness:
  "\<exists>we. getRegularSeasonWeekEntries
          (sampleUpstream (samplePreseason # sampleOpenEnded # replicate 20 sampleWeek1) sampleConfig []) []
          = (Inr we, [ESPN_SCOREBOARD])
      \<and> regularEntries we = replicate 18 sampleWeek1
      \<and> length (regularEntries we) \<le> 18"
  using regular_entries_filtered [OF sample_calendar] sample_calendar
  by simp

text \<open>
  C8 as stated fails for the label \<open>"0"\<close>: it passes the filter \<open>/^\d+$/\<close> and is kept,
  but it is not a positive integer.
\<close>

theorem zero_label_counterexample:
  "getRegularSeasonWeekEntries (sampleUpstream [sampleWeek0, sampleWeek1] sampleConfig []) [] =
     (Inr \<lparr> regularEntries = [sampleWeek0, sampleWeek1], currentWeek = Some 1 \<rparr>, [ESPN_SCOREBOARD])
   \<and> label sampleWeek0 = Some ''0''
   \<and> \<not> positiveIntegerString ''0''"
  using sample_zero_calendar
  by (simp add: sampleWeek0_def positiveIntegerString_def decimalValue_def)

text \<open>
  C9. When the scoreboard is fetched and the requested week number \<open>s\<close> equals the number
  of no resolved window's label (\<open>Number(e.label) === Number(s)\<close> for no entry), then
  \<open>fetchWeekGrid\<close> returns an empty games list, the requested week number, and no window
  label, start date or end date; only the scoreboard was fetched.
\<close>

theorem unmatched_week_empty_grid:
  assumes "getRegularSeasonWeekEntries up fetched = (Inr we, fetched1)"
      and "wp = Some s" and "s \<noteq> []"
      and "\<forall>e\<in>set (regularEntries we). \<not> strictEq (labelNumber h e) (toNumber h s)"
  shows "fetchWeekGrid h up wp cfg fetched =
           (Inr \<lparr> week = toNumber h s, grid_currentWeek = currentWeek we, games = [],
                  week_label = None, grid_startDate = None, grid_endDate = None \<rparr>,
            fetched @ [ESPN_SCOREBOARD])"
proof -
  have wk: "requestedWeek h wp (currentWeek we) = toNumber h s"
    using assms(2,3) by (simp add: requestedWeek_def)
  have "find (\<lambda>e. strictEq (labelNumber h e) (requestedWeek h wp (currentWeek we)))
          (regularEntries we) = None"
    using assms(4) by (simp add: wk find_None_iff)
  then have "fetchWeekGrid h up wp cfg fetched =
           (Inr \<lparr> week = requestedWeek h wp (currentWeek we), grid_currentWeek = currentWeek we,
                  games = [], week_label = None, grid_startDate = None, grid_endDate = None \<rparr>,
            fetched1)"
    by (rule fetchWeekGrid_no_window [OF assms(1)])
  moreover have "fetched1 = fetched @ [ESPN_SCOREBOARD]"
    using weekEntries_regular [OF assms(1)] by blast
  ultimately show ?thesis by (simp add: wk)
qed

text \<open>Week 99 of a calendar whose windows are labelled 1 and 2.\<close>

theorem unmatched_week_empty_grid_witness:
  "fetchWeekGrid sampleHost (sampleUpstream [sampleWeek1, sampleWeek2] sampleConfig sampleEvents)
     (Some ''99'') sampleConfig [] =
     (Inr \<lparr> week = JNum 99, grid_currentWeek = Some 1, games = [],
            week_label = None, grid_startDate = None, grid_endDate = None \<rparr>,
      [ESPN_SCOREBOARD])"
  using unmatched_week_empty_grid
          [OF sample_entries [where src = sampleConfig and evs = sampleEvents],
           where wp = "Some ''99''" and s = "''99''" and h = sampleHost and cfg = sampleConfig]
  by (simp add: labelNumber_def sampleWeek1_def sampleWeek2_def sample_number strictEq_def)

section \<open>Claims about teams outside the configuration\<close>

text \<open>
  C10 (as amended). A team whose normalized name is in no owner's roster and not in the
  unowned list never gets the owner \<open>"Unowned"\<close>: it gets the owner string \<open>"-"\<close>, unless
  its name is one that the map inherits from \<open>Object.prototype\<close>, when it gets the
  inherited value. A resolved matchup between two such teams has a row in the grid, with
  the owner \<open>"-"\<close> for each side whose name is not an inherited one. When no owner is
  itself named \<open>"Unowned"\<close>, a resolved matchup without a row has both of its teams in the
  unowned list.
\<close>

theorem absent_teams_shown_with_dash:
  assumes "getRegularSeasonWeekEntries up fetched = (Inr we, fetched1)"
      and "find (\<lambda>e. strictEq (labelNumber h e) (requestedWeek h wp (currentWeek we)))
             (regularEntries we) = Some entry"
      and "datesUrl entry = Inr url"
      and "getDates up url = Inr wd"
  shows "(\<forall>n. n \<notin> rostered cfg \<and> n \<notin> set (unownedList cfg)
              \<longrightarrow> ownerOf (buildTeamToOwner cfg) n \<noteq> Str ''Unowned''
                \<and> (n \<notin> set objectPrototypeNames
                       \<longrightarrow> ownerOf (buildTeamToOwner cfg) n = Str ''-'')
                \<and> (n \<in> set objectPrototypeNames
                       \<longrightarrow> ownerOf (buildTeamToOwner cfg) n = Inherited n))
       \<and> (\<exists>g. fetchWeekGrid h up wp cfg fetched = (Inr g, fetched1 @ [url])
             \<and> (\<forall>ev\<in>set (events wd). \<forall>cpt aw hm.
                     matchup ev = Some (cpt, aw, hm)
                   \<and> normalizeTeamName (team aw) \<notin> rostered cfg \<union> set (unownedList cfg)
                   \<and> normalizeTeamName (team hm) \<notin> rostered cfg \<union> set (unownedList cfg)
                 \<longrightarrow> matchupRow (buildTeamToOwner cfg) ev (cpt, aw, hm) \<in> set (games g)
                   \<and> (normalizeTeamName (team aw) \<notin> set objectPrototypeNames
                          \<longrightarrow> awayOwner (matchupRow (buildTeamToOwner cfg) ev (cpt, aw, hm)) = Str ''-'')
                   \<and> (normalizeTeamName (team hm) \<notin> set objectPrototypeNames
                          \<longrightarrow> homeOwner (matchupRow (buildTeamToOwner cfg) ev (cpt, aw, hm)) = Str ''-''))
             \<and> (''Unowned'' \<notin> fst ` set (ownerEntries cfg) \<longrightarrow>
                  (\<forall>ev\<in>set (events wd). \<forall>cpt aw hm.
                       matchup ev = Some (cpt, aw, hm)
                     \<and> matchupRow (buildTeamToOwner cfg) ev (cpt, aw, hm) \<notin> set (games g)
                   \<longrightarrow> normalizeTeamName (team aw) \<in> set (unownedList cfg)
                     \<and> normalizeTeamName (team hm) \<in> set (unownedList cfg))))"
proof -
  let ?m = "buildTeamToOwner cfg"
  let ?g = "\<lparr> week = requestedWeek h wp (currentWeek we), grid_currentWeek = currentWeek we,
               games = arraySort (gamesCompare h) (weekGames ?m (events wd)),
               week_label = label entry, grid_startDate = startDate entry,
               grid_endDate = endDate entry \<rparr>"
  have dash: "ownerOf ?m n = (if n \<in> set objectPrototypeNames then Inherited n else Str ''-'')"
    if "n \<notin> rostered cfg" "n \<notin> set (unownedList cfg)" for n
    using absent_lookup [OF that] by (simp add: ownerOf_def)
  have res: "fetchWeekGrid h up wp cfg fetched = (Inr ?g, fetched1 @ [url])"
    by (rule fetchWeekGrid_window [OF assms])
  have mem: "r \<in> set (games ?g) \<longleftrightarrow>
                  (\<exists>ev\<in>set (events wd). \<exists>cpt aw hm.
                      matchup ev = Some (cpt, aw, hm)
                    \<and> r = matchupRow ?m ev (cpt, aw, hm)
                    \<and> \<not> (ownerOf ?m (normalizeTeamName (team aw)) = Str ''Unowned''
                           \<and> ownerOf ?m (normalizeTeamName (team hm)) = Str ''Unowned''))" for r
    by (simp add: set_arraySort in_weekGames)
  have kept: "matchupRow ?m ev (cpt, aw, hm) \<in> set (games ?g)
            \<and> (normalizeTeamName (team aw) \<notin> set objectPrototypeNames
                   \<longrightarrow> awayOwner (matchupRow ?m ev (cpt, aw, hm)) = Str ''-'')
            \<and> (normalizeTeamName (team hm) \<notin> set objectPrototypeNames
                   \<longrightarrow> homeOwner (matchupRow ?m ev (cpt, aw, hm)) = Str ''-'')"
    if "ev \<in> set (events wd)" "matchup ev = Some (cpt, aw, hm)"
       "normalizeTeamName (team aw) \<notin> rostered cfg \<union> set (unownedList cfg)"
       "normalizeTeamName (team hm) \<notin> rostered cfg \<union> set (unownedList cfg)" for ev cpt aw hm
  proof -
    have a: "ownerOf ?m (normalizeTeamName (team aw))
               = (if normalizeTeamName (team aw) \<in> set objectPrototypeNames
                  then Inherited (normalizeTeamName (team aw)) else Str ''-'')"
      using that(3) by (intro dash) simp_all
    have b: "ownerOf ?m (normalizeTeamName (team hm))
               = (if normalizeTeamName (team hm) \<in> set objectPrototypeNames
                  then Inherited (normalizeTeamName (team hm)) else Str ''-'')"
      using that(4) by (intro dash) simp_all
    have a': "ownerOf ?m (normalizeTeamName (team aw)) \<noteq> Str ''Unowned''"
      unfolding a by simp
    have "\<exists>ev'\<in>set (events wd). \<exists>cpt' aw' hm'.
             matchup ev' = Some (cpt', aw', hm')
           \<and> matchupRow ?m ev (cpt, aw, hm) = matchupRow ?m ev' (cpt', aw', hm')
           \<and> \<not> (ownerOf ?m (normalizeTeamName (team aw')) = Str ''Unowned''
                  \<and> ownerOf ?m (normalizeTeamName (team hm')) = Str ''Unowned'')"
      using that(1,2) a'
      by (intro bexI [of _ ev] exI [of _ cpt] exI [of _ aw] exI [of _ hm]) simp_all
    then have "matchupRow ?m ev (cpt, aw, hm) \<in> set (games ?g)"
      unfolding mem .
    with a b show ?thesis by (simp add: matchupRow_owners)
  qed
  have dropped: "normalizeTeamName (team aw) \<in> set (unownedList cfg)
               \<and> normalizeTeamName (team hm) \<in> set (unownedList cfg)"
    if no: "''Unowned'' \<notin> fst ` set (ownerEntries cfg)"
       and "ev \<in> set (events wd)" "matchup ev = Some (cpt, aw, hm)"
       "matchupRow ?m ev (cpt, aw, hm) \<notin> set (games ?g)" for ev cpt aw hm
  proof -
    have "ownerOf ?m (normalizeTeamName (team aw)) = Str ''Unowned''
        \<and> ownerOf ?m (normalizeTeamName (team hm)) = Str ''Unowned''"
      using that(2,3,4) unfolding mem by blast
    then have "?m (normalizeTeamName (team aw)) = Some ''Unowned''"
      and "?m (normalizeTeamName (team hm)) = Some ''Unowned''"
      by (simp_all add: ownerOf_Unowned)
    then show ?thesis
      using Unowned_lookup [OF _ no] by blast
  qed
  show ?thesis
  proof (intro conjI exI allI impI ballI)
    fix n assume "n \<notin> rostered cfg \<and> n \<notin> set (unownedList cfg)"
    then have d: "ownerOf ?m n = (if n \<in> set objectPrototypeNames then Inherited n else Str ''-'')"
      using dash by blast
    show "ownerOf ?m n \<noteq> Str ''Unowned''" unfolding d by simp
    { assume "n \<notin> set objectPrototypeNames"
      then show "ownerOf ?m n = Str ''-''" unfolding d by simp }
    { assume "n \<in> set objectPrototypeNames"
      then show "ownerOf ?m n = Inherited n" unfolding d by simp }
  next
    show "fetchWeekGrid h up wp cfg fetched = (Inr ?g, fetched1 @ [url])" by (rule res)
  next
    fix ev cpt aw hm
    assume "ev \<in> set (events wd)"
      and "matchup ev = Some (cpt, aw, hm)
         \<and> normalizeTeamName (team aw) \<notin> rostered cfg \<union> set (unownedList cfg)
         \<and> normalizeTeamName (team hm) \<notin> rostered cfg \<union> set (unownedList cfg)"
    then have k: "matchupRow ?m ev (cpt, aw, hm) \<in> set (games ?g)
            \<and> (normalizeTeamName (team aw) \<notin> set objectPrototypeNames
                   \<longrightarrow> awayOwner (matchupRow ?m ev (cpt, aw, hm)) = Str ''-'')
            \<and> (normalizeTeamName (team hm) \<notin> set objectPrototypeNames
                   \<longrightarrow> homeOwner (matchupRow ?m ev (cpt, aw, hm)) = Str ''-'')"
      using kept by blast
    from k show "matchupRow ?m ev (cpt, aw, hm) \<in> set (games ?g)" by blast
    { assume "normalizeTeamName (team aw) \<notin> set objectPrototypeNames"
      with k show "awayOwner (matchupRow ?m ev (cpt, aw, hm)) = Str ''-''" by blast }
    { assume "normalizeTeamName (team hm) \<notin> set objectPrototypeNames"
      with k show "homeOwner (matchupRow ?m ev (cpt, aw, hm)) = Str ''-''" by blast }
  next
    fix ev cpt aw hm
    assume "''Unowned'' \<notin> fst ` set (ownerEntries cfg)" "ev \<in> set (events wd)"
      and "matchup ev = Some (cpt, aw, hm) \<and> matchupRow ?m ev (cpt, aw, hm) \<notin> set (games ?g)"
    then have d: "normalizeTeamName (team aw) \<in> set (unownedList cfg)
               \<and> normalizeTeamName (team hm) \<in> set (unownedList cfg)"
      using dropped by blast
    from d show "normalizeTeamName (team aw) \<in> set (unownedList cfg)" by blast
    from d show "normalizeTeamName (team hm) \<in> set (unownedList cfg)" by blast
  qed
qed

text \<open>
  The Jets and the Giants are not in the sample configuration: their game is in the grid
  with both owners \<open>"-"\<close>.
\<close>

theorem absent_teams_shown_with_dash_witness:
  "''Jets'' \<notin> rostered sampleConfig \<and> ''Jets'' \<notin> set (unownedList sampleConfig)
   \<and> ''Jets'' \<notin> set objectPrototypeNames
   \<and> ownerOf (buildTeamToOwner sampleConfig) ''Jets'' = Str ''-''
   \<and> (\<exists>g. fetchWeekGrid sampleHost (sampleUpstream [sampleWeek1, sampleWeek2] sampleConfig sampleEvents)
            (Some ''1'') sampleConfig [] = (Inr g, [ESPN_SCOREBOARD, sampleWeek1Url])
        \<and> \<lparr> kickoff_utc = Some ''2025-09-07T17:00Z'', away = ''Jets'', home = ''Giants'',
             row_winner = None, awayOwner = Str ''-'', homeOwner = Str ''-'', winningOwner = Str ''-'' \<rparr>
            \<in> set (games g))"
proof -
  note e = sample_entries [where src = sampleConfig and evs = sampleEvents]
  note d = sample_dates [where cal = "[sampleWeek1, sampleWeek2]" and src = sampleConfig
                         and evs = sampleEvents]
  note t = absent_teams_shown_with_dash [OF e sample_found sample_week1_url d, where cfg = sampleConfig]
  have r: "''Jets'' \<notin> rostered sampleConfig"
    by (simp add: rostered_def ownerEntries_def sampleConfig_def)
  have u: "''Jets'' \<notin> set (unownedList sampleConfig)"
    by (simp add: unownedList_def sampleConfig_def)
  have i: "''Jets'' \<notin> set objectPrototypeNames"
    by (simp add: objectPrototypeNames_def)
  from t r u i have dash: "ownerOf (buildTeamToOwner sampleConfig) ''Jets'' = Str ''-''"
    by blast
  let ?g = "\<lparr> week = JNum 1, grid_currentWeek = Some 1,
            games = arraySort (gamesCompare sampleHost) (weekGames (buildTeamToOwner sampleConfig) sampleEvents),
            week_label = Some ''1'', grid_startDate = Some ''2025-09-04T07:00Z'',
            grid_endDate = Some ''2025-09-10T06:59Z'' \<rparr>"
  show ?thesis
  proof (intro conjI exI)
    show "fetchWeekGrid sampleHost (sampleUpstream [sampleWeek1, sampleWeek2] sampleConfig sampleEvents)
            (Some ''1'') sampleConfig [] = (Inr ?g, [ESPN_SCOREBOARD, sampleWeek1Url])"
      by (rule sample_grid)
    show "\<lparr> kickoff_utc = Some ''2025-09-07T17:00Z'', away = ''Jets'', home = ''Giants'',
             row_winner = None, awayOwner = Str ''-'', homeOwner = Str ''-'', winningOwner = Str ''-'' \<rparr>
            \<in> set (games ?g)"
      by (simp only: grid.select_convs sample_games) simp
  qed (rule r u i dash)+
qed

text \<open>
  C10 as stated fails when an owner is named \<open>"Unowned"\<close>: the Bears and the Lions are on
  that owner's roster, the unowned list is empty, and their game is dropped from the grid.
  It also fails for a team whose name the map inherits: a team named \<open>"constructor"\<close> is
  not in the sample configuration, and the row of its game has the inherited function as
  the away owner, not \<open>"-"\<close>.
\<close>

theorem owner_named_unowned_game_dropped_counterexample:
  "unownedList unownedOwnerConfig = []
   \<and> matchup (sampleGame (Some ''2025-09-07T17:00Z'') ''Bears'' ''Lions'' None) \<noteq> None
   \<and> (\<exists>g. fetchWeekGrid sampleHost
             (sampleUpstream [sampleWeek1, sampleWeek2] unownedOwnerConfig
                [sampleGame (Some ''2025-09-07T17:00Z'') ''Bears'' ''Lions'' None])
             (Some ''1'') unownedOwnerConfig [] = (Inr g, [ESPN_SCOREBOARD, sampleWeek1Url])
         \<and> games g = [])
   \<and> ''constructor'' \<notin> rostered sampleConfig \<union> set (unownedList sampleConfig)
   \<and> (\<exists>g. fetchWeekGrid sampleHost
             (sampleUpstream [sampleWeek1, sampleWeek2] sampleConfig
                [sampleGame (Some ''2025-09-07T17:00Z'') ''constructor'' ''Giants'' None])
             (Some ''1'') sampleConfig [] = (Inr g, [ESPN_SCOREBOARD, sampleWeek1Url])
         \<and> map awayOwner (games g) = [Inherited ''constructor''])"
proof -
  let ?evs = "[sampleGame (Some ''2025-09-07T17:00Z'') ''Bears'' ''Lions'' None]"
  let ?g = "\<lparr> week = JNum 1, grid_currentWeek = Some 1,
            games = arraySort (gamesCompare sampleHost) (weekGames (buildTeamToOwner unownedOwnerConfig) ?evs),
            week_label = Some ''1'', grid_startDate = Some ''2025-09-04T07:00Z'',
            grid_endDate = Some ''2025-09-10T06:59Z'' \<rparr>"
  let ?evs' = "[sampleGame (Some ''2025-09-07T17:00Z'') ''constructor'' ''Giants'' None]"
  let ?g' = "\<lparr> week = JNum 1, grid_currentWeek = Some 1,
            games = arraySort (gamesCompare sampleHost) (weekGames (buildTeamToOwner sampleConfig) ?evs'),
            week_label = Some ''1'', grid_startDate = Some ''2025-09-04T07:00Z'',
            grid_endDate = Some ''2025-09-10T06:59Z'' \<rparr>"
  show ?thesis
  proof (intro conjI exI)
    show "unownedList unownedOwnerConfig = []"
      by (simp add: unownedList_def unownedOwnerConfig_def)
    show "matchup (sampleGame (Some ''2025-09-07T17:00Z'') ''Bears'' ''Lions'' None) \<noteq> None"
      by (simp add: matchup_def sampleGame_def)
    show "fetchWeekGrid sampleHost (sampleUpstream [sampleWeek1, sampleWeek2] unownedOwnerConfig ?evs)
            (Some ''1'') unownedOwnerConfig [] = (Inr ?g, [ESPN_SCOREBOARD, sampleWeek1Url])"
      by (rule sample_grid)
    show "games ?g = []"
      by (simp only: grid.select_convs unowned_owner_games)
    show "''constructor'' \<notin> rostered sampleConfig \<union> set (unownedList sampleConfig)"
      by (simp add: rostered_def ownerEntries_def unownedList_def sampleConfig_def)
    show "fetchWeekGrid sampleHost (sampleUpstream [sampleWeek1, sampleWeek2] sampleConfig ?evs')
            (Some ''1'') sampleConfig [] = (Inr ?g', [ESPN_SCOREBOARD, sampleWeek1Url])"
      by (rule sample_grid)
    show "map awayOwner (games ?g') = [Inherited ''constructor'']"
      by (simp only: grid.select_convs inherited_name_games) simp
  qed
qed

end
